theory Spec2Isabelle
  imports Complex_Main "HOL-Library.AList" "HOL-Library.Signed_Division"
begin

section \<open>op-mtr: hop discovery and per-hop probing\<close>

text \<open>
  A shallow embedding of package \<^verbatim>\<open>mtr\<close>: the three run operations of
  \<^verbatim>\<open>OPMTR\<close> (\<^verbatim>\<open>RunMTRWithNoRetryPing\<close>, \<^verbatim>\<open>RunMTR\<close>,
  \<^verbatim>\<open>RunMTRWithCocurrentPing\<close>) and the discovery loop of the older stand-alone
  \<^verbatim>\<open>RunMTR\<close> of \<^verbatim>\<open>mtr/mtr.go\<close>.

  Conventions of the embedding.
  \<^item> Go's \<^verbatim>\<open>int\<close> and \<^verbatim>\<open>time.Duration\<close> (nanoseconds) are \<^typ>\<open>int\<close>; no
    loop counter of a run that finishes comes near \<open>2^63\<close>.
  \<^item> A \<^verbatim>\<open>float64\<close> is the \<^typ>\<open>real\<close> it stands for. The result of a \<^verbatim>\<open>float64\<close>
    multiplication, addition or division is rounded by \<open>fl64\<close>, to the nearest
    number with 53 significant bits, ties to even; overflow and subnormal numbers,
    far from any round-trip time, are left out. The conversion of an \<^verbatim>\<open>int\<close> and
    the steps \<^verbatim>\<open>Snt++\<close> and \<^verbatim>\<open>Snt-1\<close> of the probe counter are exact in \<^verbatim>\<open>float64\<close>
    below \<open>2^53\<close>, which no counter of a run that finishes comes near, and are not
    rounded.
  \<^item> A \<^verbatim>\<open>net.IP\<close> value is represented by the text \<^verbatim>\<open>IP.String()\<close> gives for it,
    the only way the code looks at one (apart from the nil test on the result of
    \<^verbatim>\<open>net.ParseIP\<close>).
  \<^item> \<^verbatim>\<open>map[int]*MTRHup\<close> is an association list from TTL to the record the pointer
    refers to; the key stands for the pointer. A missing key reads as the nil
    pointer, and dereferencing it is the panic \<open>None\<close> of the run's result.
  \<^item> The transport, the clock and \<^verbatim>\<open>net.ParseIP\<close> are the fields of an environment
    record; logging is left out. \<open>net_ParseIP\<close> below is the parser of Go's library
    itself, followed by \<^verbatim>\<open>String()\<close>.
\<close>

subsection \<open>Data\<close>

type_synonym IP = string
type_synonym Duration = int

text \<open>Rounding to the nearest integer, ties to the even one.\<close>

definition round_even :: "real \<Rightarrow> int" where
  "round_even x =
     (let f = \<lfloor>x\<rfloor>
      in if x - of_int f < 1 / 2 then f
         else if x - of_int f > 1 / 2 then f + 1
         else if even f then f else f + 1)"

text \<open>Rounding to \<^verbatim>\<open>float64\<close>: \<open>x\<close> is scaled by a power of two into the range from
  \<open>2^52\<close> to \<open>2^53\<close>, rounded to an integer, and scaled back.\<close>

definition fl64 :: "real \<Rightarrow> real" where
  "fl64 x =
     (if x = 0 then 0
      else (let e = \<lfloor>log 2 \<bar>x\<bar>\<rfloor> - 52
            in of_int (round_even (x / 2 powr of_int e)) * 2 powr of_int e))"

definition Second :: Duration where
  "Second = 1000000000"

text \<open>\<^verbatim>\<open>Duration.Seconds\<close>: whole seconds plus the fraction, Go's \<^verbatim>\<open>/\<close> and \<^verbatim>\<open>%\<close> on
  integers truncating towards zero.\<close>

definition Seconds :: "Duration \<Rightarrow> real" where
  "Seconds d =
     fl64 (real_of_int (d sdiv Second) + fl64 (real_of_int (d smod Second) / 1000000000))"

record Reply =
  Hops :: int
  IP :: IP
  RTT :: Duration

record MTRHup =
  Count :: int
  Host :: string
  Loss :: real
  LossPoint :: int
  Snt :: real
  Last :: real
  Avg :: real
  Best :: real
  Wrst :: real

record MTRReport =
  Time :: int
  Src :: string
  Dst :: string
  Count :: int
  Hups :: "MTRHup list"

record Tracer =
  Timeout :: Duration
  MaxHops :: int
  Addr :: string

record OPMTR =
  Tracer :: Tracer
  MaxUnknowns :: int
  PingCount :: int

datatype error = UnknownSourceIP | UnknownDestIP | TransportError string

text \<open>What \<^verbatim>\<open>ping\<close> returns: the reply pointer (nil on a timeout) and the error.\<close>

type_synonym ping_result = "Reply option \<times> string option"

text \<open>
  The world outside the package. \<open>Trace_env ip\<close> is the sequence of replies
  \<^verbatim>\<open>Tracer.Trace\<close> hands to its callback and the error it returns. \<open>ping_env i j\<close> is
  the outcome of the one \<^verbatim>\<open>ping\<close> call that iteration \<open>j\<close> of hop \<open>i\<close> may make, as a
  function of the arguments of the call. \<open>scan_env i j\<close> is used by the concurrent
  operation only: the records of the other hops as the duplicate scan of hop \<open>i\<close>
  reads them in iteration \<open>j\<close>, which depends on the schedule of the workers.
\<close>

record env =
  ParseIP :: "string \<Rightarrow> IP option"
  Trace_env :: "IP \<Rightarrow> Reply list \<times> string option"
  ping_env :: "int \<Rightarrow> int \<Rightarrow> string \<Rightarrow> int \<Rightarrow> Duration \<Rightarrow> ping_result"
  scan_env :: "int \<Rightarrow> int \<Rightarrow> MTRHup list"
  now :: int

type_synonym hups = "(int \<times> MTRHup) list"

subsection \<open>Discovery\<close>

text \<open>The callback given to \<^verbatim>\<open>Trace\<close>: the first reply for a TTL is kept.\<close>

definition on_reply :: "Reply \<Rightarrow> (int \<rightharpoonup> Reply) \<Rightarrow> (int \<rightharpoonup> Reply)" where
  "on_reply reply routes =
     (case routes (Hops reply) of
        Some ex \<Rightarrow> routes
      | None \<Rightarrow> routes(Hops reply \<mapsto> reply))"

definition rtt_ms :: "Reply \<Rightarrow> real" where
  "rtt_ms r = fl64 (Seconds (RTT r) * 1000)"

text \<open>
  The loop \<^verbatim>\<open>for i := 1; i <= op.Tracer.MaxHops; i++\<close> of the three operations of
  \<^verbatim>\<open>OPMTR\<close>, from TTL \<open>i\<close> on. The \<^verbatim>\<open>break\<close> in the branch of a known hop leaves
  \<^verbatim>\<open>Loss\<close> at the zero value of the struct.
\<close>

function trace_first ::
  "OPMTR \<Rightarrow> (int \<rightharpoonup> Reply) \<Rightarrow> string \<Rightarrow> IP \<Rightarrow> int \<Rightarrow> int \<Rightarrow> hups \<Rightarrow> hups" where
  "trace_first op routes dst dstIP i unknownCount hups =
     (if i \<le> MaxHops (Tracer op) then
        (case routes i of
           Some r \<Rightarrow>
             (let rtt = rtt_ms r;
                  h = \<lparr>MTRHup.Count = i, Host = IP r, Loss = 0, LossPoint = 0, Snt = 1,
                       Last = rtt, Avg = rtt, Best = rtt, Wrst = rtt\<rparr>;
                  hups = AList.update i h hups;
                  unknownCount = 0
              in if IP r = dstIP then hups
                 else
                   (let h = h\<lparr>Loss := fl64 (real_of_int (LossPoint h) / Snt h)\<rparr>;
                        hups = AList.update i h hups
                    in if unknownCount \<ge> MaxUnknowns op then hups
                       else if Host h = dst then hups
                       else trace_first op routes dst dstIP (i + 1) unknownCount hups))
         | None \<Rightarrow>
             (let h = \<lparr>MTRHup.Count = i, Host = ''???'', Loss = 0, LossPoint = 1, Snt = 1,
                       Last = 0, Avg = 0, Best = 0, Wrst = 0\<rparr>;
                  hups = AList.update i h hups;
                  unknownCount = unknownCount + 1;
                  h = h\<lparr>Loss := fl64 (real_of_int (LossPoint h) / Snt h)\<rparr>;
                  hups = AList.update i h hups
              in if unknownCount \<ge> MaxUnknowns op then hups
                 else if Host h = dst then hups
                 else trace_first op routes dst dstIP (i + 1) unknownCount hups))
      else hups)"
  by pat_completeness auto
termination
  by (relation "measure (\<lambda>(op, routes, dst, dstIP, i, unknownCount, hups).
        nat (MaxHops (Tracer op) + 1 - i))") auto

declare trace_first.simps [simp del]



subsection \<open>Probing\<close>

text \<open>The statements that follow every successful probe, the same in all three
  operations.\<close>

definition record_rtt :: "real \<Rightarrow> MTRHup \<Rightarrow> MTRHup" where
  "record_rtt rtt hup =
     (let hup = hup\<lparr>Last := rtt\<rparr>;
          hup = hup\<lparr>Avg := fl64 (fl64 (fl64 (Avg hup * (Snt hup - 1)) + rtt) / Snt hup)\<rparr>;
          hup = (if Best hup > rtt then hup\<lparr>Best := rtt\<rparr> else hup);
          hup = (if Wrst hup < rtt then hup\<lparr>Wrst := rtt\<rparr> else hup)
      in hup)"

text \<open>One iteration of the inner loop of \<^verbatim>\<open>RunMTRWithNoRetryPing\<close>.\<close>

definition no_retry_ping ::
  "OPMTR \<Rightarrow> (string \<Rightarrow> int \<Rightarrow> Duration \<Rightarrow> ping_result) \<Rightarrow> MTRHup \<Rightarrow> MTRHup" where
  "no_retry_ping op ping hup =
     (let hup = hup\<lparr>Snt := Snt hup + 1\<rparr>
      in if Host hup \<noteq> ''???'' then
           (case ping (Host hup) (MaxHops (Tracer op)) (Timeout (Tracer op)) of
              (Some rp, None) \<Rightarrow> record_rtt (rtt_ms rp) hup
            | _ \<Rightarrow> hup\<lparr>LossPoint := LossPoint hup + 1\<rparr>)
         else hup)"

text \<open>The variables a hop's loop declares in \<^verbatim>\<open>RunMTR\<close> and \<^verbatim>\<open>RunMTRWithCocurrentPing\<close>.\<close>

record locals =
  to :: Duration
  retryTime :: int
  workTimeout :: Duration
  comeback :: bool

text \<open>
  One iteration of the inner loop of \<^verbatim>\<open>RunMTR\<close> and of a worker of
  \<^verbatim>\<open>RunMTRWithCocurrentPing\<close>. \<open>hupsCopy\<close> gives the records the duplicate scan ranges
  over, from the record of the hop itself as it is at the scan.
\<close>

definition retry_ping ::
  "OPMTR \<Rightarrow> IP \<Rightarrow> (string \<Rightarrow> int \<Rightarrow> Duration \<Rightarrow> ping_result) \<Rightarrow> (MTRHup \<Rightarrow> MTRHup list)
     \<Rightarrow> MTRHup \<times> locals \<Rightarrow> MTRHup \<times> locals" where
  "retry_ping op dstIP ping hupsCopy = (\<lambda>(hup, s).
     let hup = hup\<lparr>Snt := Snt hup + 1\<rparr>
     in if Host hup \<noteq> ''???'' then
          (case (if comeback s then ping (Host hup) (MTRHup.Count hup) (workTimeout s)
                 else ping (Host hup) (MaxHops (Tracer op)) (Timeout (Tracer op))) of
             (Some rp, None) \<Rightarrow> (record_rtt (rtt_ms rp) hup, s)
           | _ \<Rightarrow> (hup\<lparr>LossPoint := LossPoint hup + 1\<rparr>, s))
        else if retryTime s \<ge> 4 then (hup, s)
        else
          (case ping dstIP (MTRHup.Count hup) (to s) of
             (Some rp, None) \<Rightarrow>
               (let toComeback = \<not> list_ex (\<lambda>v. Host v = IP rp) (hupsCopy hup)
                in if toComeback then
                     (let s = s\<lparr>comeback := True, workTimeout := to s\<rparr>;
                          hup = hup\<lparr>Host := IP rp\<rparr>;
                          hup = record_rtt (rtt_ms rp) hup
                      in (hup, s\<lparr>retryTime := retryTime s + 1\<rparr>))
                   else
                     (let s = (if to s < Second * 5 then s\<lparr>to := to s + Second\<rparr> else s);
                          hup = hup\<lparr>LossPoint := LossPoint hup + 1\<rparr>
                      in (hup, s\<lparr>retryTime := retryTime s + 1\<rparr>)))
           | _ \<Rightarrow>
               (let s = (if to s < Second * 5 then s\<lparr>to := to s + Second\<rparr> else s);
                    hup = hup\<lparr>LossPoint := LossPoint hup + 1\<rparr>
                in (hup, s\<lparr>retryTime := retryTime s + 1\<rparr>))))"

text \<open>The statement after the inner loop.\<close>

definition final_loss :: "MTRHup \<Rightarrow> MTRHup" where
  "final_loss hup =
     (if Host hup \<noteq> ''???''
      then hup\<lparr>Loss := fl64 (real_of_int (LossPoint hup) / Snt hup)\<rparr>
      else hup)"

definition locals_init :: "OPMTR \<Rightarrow> locals" where
  "locals_init op = \<lparr>to = Timeout (Tracer op), retryTime = 0, workTimeout = 0, comeback = False\<rparr>"

text \<open>
  The body of the loop over the hops, for the record \<open>hup\<close> that \<^verbatim>\<open>hups[i]\<close> points
  to: \<open>j\<close> runs from 1 to \<^verbatim>\<open>PingCount-1\<close>. In \<^verbatim>\<open>RunMTR\<close> the scan reads the table as the
  hops before \<open>i\<close> left it. In \<^verbatim>\<open>RunMTRWithCocurrentPing\<close> one goroutine per hop runs
  the body; it writes its own record only, and its scan reads its own record and,
  unsynchronised, the records of the other hops while their goroutines may write
  them. What those reads see is not determined by the code, so it is taken from
  the environment, and what is proved of \<open>hop_worker\<close> holds for whatever they see.
\<close>

definition hop_no_retry :: "env \<Rightarrow> OPMTR \<Rightarrow> IP \<Rightarrow> hups \<Rightarrow> int \<Rightarrow> MTRHup \<Rightarrow> MTRHup" where
  "hop_no_retry e op dstIP hups i hup =
     final_loss (fold (\<lambda>j. no_retry_ping op (ping_env e i j)) [1..PingCount op - 1] hup)"

definition hop_retry :: "env \<Rightarrow> OPMTR \<Rightarrow> IP \<Rightarrow> hups \<Rightarrow> int \<Rightarrow> MTRHup \<Rightarrow> MTRHup" where
  "hop_retry e op dstIP hups i hup =
     final_loss (fst (fold
       (\<lambda>j. retry_ping op dstIP (ping_env e i j) (\<lambda>h. map snd (AList.update i h hups)))
       [1..PingCount op - 1] (hup, locals_init op)))"

definition hop_worker :: "env \<Rightarrow> OPMTR \<Rightarrow> IP \<Rightarrow> hups \<Rightarrow> int \<Rightarrow> MTRHup \<Rightarrow> MTRHup" where
  "hop_worker e op dstIP hups i hup =
     final_loss (fst (fold
       (\<lambda>j. retry_ping op dstIP (ping_env e i j) (\<lambda>h. h # scan_env e i j))
       [1..PingCount op - 1] (hup, locals_init op)))"

text \<open>
  The loop \<^verbatim>\<open>for i := 1; i <= hupsLen; i++\<close>: \<^verbatim>\<open>hups[i]\<close> is read, and the record it
  points to is changed in place. A nil pointer panics at its first use.
\<close>

fun ping_hops :: "(hups \<Rightarrow> int \<Rightarrow> MTRHup \<Rightarrow> MTRHup) \<Rightarrow> int list \<Rightarrow> hups \<Rightarrow> hups option" where
  "ping_hops body [] hups = Some hups"
| "ping_hops body (i # is) hups =
     (case map_of hups i of
        None \<Rightarrow> None
      | Some hup \<Rightarrow> ping_hops body is (AList.update i (body hups i hup) hups))"

subsection \<open>The run operations\<close>

text \<open>
  The three methods differ in the body of the loop over the hops only; the rest
  of their text is the same: the guard on \<^verbatim>\<open>dst\<close>, the trace, discovery, and the
  loop that copies \<^verbatim>\<open>*hups[i]\<close> into the report. The result is \<open>None\<close> for a panic,
  and the pair the method returns otherwise. Discovery never stores a key twice,
  so the length of the association list is \<^verbatim>\<open>len(hups)\<close>.
\<close>

definition run_with ::
  "(env \<Rightarrow> OPMTR \<Rightarrow> IP \<Rightarrow> hups \<Rightarrow> int \<Rightarrow> MTRHup \<Rightarrow> MTRHup)
     \<Rightarrow> env \<Rightarrow> OPMTR \<Rightarrow> string \<Rightarrow> (MTRReport \<times> error option) option" where
  "run_with body e op dst =
     (case ParseIP e dst of
        None \<Rightarrow> Some (\<lparr>Time = 0, Src = [], Dst = [], Count = 0, Hups = []\<rparr>, Some UnknownDestIP)
      | Some dstIP \<Rightarrow>
          (let report = \<lparr>Time = 0, Src = Addr (Tracer op), Dst = dst, Count = PingCount op,
                         Hups = []\<rparr>;
               (replies, err) = Trace_env e dstIP;
               routes = fold on_reply replies Map.empty
           in case err of
                Some msg \<Rightarrow> Some (report, Some (TransportError msg))
              | None \<Rightarrow>
                  (let report = report\<lparr>Time := now e\<rparr>;
                       hups = trace_first op routes dst dstIP 1 0 [];
                       hupsLen = int (length hups)
                   in case ping_hops (body e op dstIP) [1..hupsLen] hups of
                        None \<Rightarrow> None
                      | Some hups \<Rightarrow>
                          (case those (map (map_of hups) [1..hupsLen]) of
                             None \<Rightarrow> None
                           | Some vs \<Rightarrow> Some (report\<lparr>Hups := vs\<rparr>, None)))))"

definition RunMTRWithNoRetryPing :: "env \<Rightarrow> OPMTR \<Rightarrow> string \<Rightarrow> (MTRReport \<times> error option) option" where
  "RunMTRWithNoRetryPing = run_with hop_no_retry"

definition RunMTR :: "env \<Rightarrow> OPMTR \<Rightarrow> string \<Rightarrow> (MTRReport \<times> error option) option" where
  "RunMTR = run_with hop_retry"

definition RunMTRWithCocurrentPing :: "env \<Rightarrow> OPMTR \<Rightarrow> string \<Rightarrow> (MTRReport \<times> error option) option" where
  "RunMTRWithCocurrentPing = run_with hop_worker"

datatype variant = NoRetry | Sequential | Concurrent

definition run :: "variant \<Rightarrow> env \<Rightarrow> OPMTR \<Rightarrow> string \<Rightarrow> (MTRReport \<times> error option) option" where
  "run v = (case v of NoRetry \<Rightarrow> RunMTRWithNoRetryPing
                    | Sequential \<Rightarrow> RunMTR
                    | Concurrent \<Rightarrow> RunMTRWithCocurrentPing)"

text \<open>The body of the loop over the hops in each operation.\<close>

definition hop_body :: "variant \<Rightarrow> env \<Rightarrow> OPMTR \<Rightarrow> IP \<Rightarrow> hups \<Rightarrow> int \<Rightarrow> MTRHup \<Rightarrow> MTRHup" where
  "hop_body v = (case v of NoRetry \<Rightarrow> hop_no_retry
                         | Sequential \<Rightarrow> hop_retry
                         | Concurrent \<Rightarrow> hop_worker)"

text \<open>\<^verbatim>\<open>NewOPMTR\<close>: the source address is parsed, the rest is stored.\<close>

definition NewOPMTR :: "env \<Rightarrow> string \<Rightarrow> int \<Rightarrow> int \<Rightarrow> int \<Rightarrow> Duration \<Rightarrow> error + OPMTR" where
  "NewOPMTR e src maxHops count maxUnknowns timeout =
     (case ParseIP e src of
        None \<Rightarrow> Inl UnknownSourceIP
      | Some srcIP \<Rightarrow>
          Inr \<lparr>Tracer = \<lparr>Timeout = timeout, MaxHops = maxHops, Addr = srcIP\<rparr>,
               MaxUnknowns = maxUnknowns, PingCount = count\<rparr>)"

subsection \<open>The hop table as the specification describes it\<close>

definition known_hop :: "int \<Rightarrow> Reply \<Rightarrow> MTRHup" where
  "known_hop i r =
     \<lparr>MTRHup.Count = i, Host = IP r, Loss = 0, LossPoint = 0, Snt = 1,
      Last = rtt_ms r, Avg = rtt_ms r, Best = rtt_ms r, Wrst = rtt_ms r\<rparr>"

definition unknown_hop :: "int \<Rightarrow> MTRHup" where
  "unknown_hop i =
     \<lparr>MTRHup.Count = i, Host = ''???'', Loss = 1, LossPoint = 1, Snt = 1,
      Last = 0, Avg = 0, Best = 0, Wrst = 0\<rparr>"

definition hop_at :: "(int \<rightharpoonup> Reply) \<Rightarrow> int \<Rightarrow> MTRHup" where
  "hop_at routes i = (case routes i of Some r \<Rightarrow> known_hop i r | None \<Rightarrow> unknown_hop i)"

text \<open>The number of consecutive TTLs without a route reply that end at TTL \<open>i\<close>, in a
  walk that starts at TTL 1.\<close>

definition consecutive_unknowns :: "(int \<rightharpoonup> Reply) \<Rightarrow> int \<Rightarrow> int" where
  "consecutive_unknowns routes i =
     int (length (takeWhile (\<lambda>k. routes k = None) (rev [1..i])))"

text \<open>The three stopping conditions, in the order the walk checks them.\<close>

definition stops_at :: "OPMTR \<Rightarrow> (int \<rightharpoonup> Reply) \<Rightarrow> string \<Rightarrow> IP \<Rightarrow> int \<Rightarrow> bool" where
  "stops_at op routes dst dstIP i =
     ((case routes i of Some r \<Rightarrow> IP r = dstIP | None \<Rightarrow> False)
      \<or> consecutive_unknowns routes i \<ge> MaxUnknowns op
      \<or> Host (hop_at routes i) = dst)"

text \<open>The last TTL of the table: the first TTL in \<open>1..max_hops\<close> at which the walk stops,
  and \<open>max_hops\<close> when it stops nowhere.\<close>

definition walk_end :: "OPMTR \<Rightarrow> (int \<rightharpoonup> Reply) \<Rightarrow> string \<Rightarrow> IP \<Rightarrow> int" where
  "walk_end op routes dst dstIP =
     (case find (stops_at op routes dst dstIP) [1..MaxHops (Tracer op)] of
        Some n \<Rightarrow> n
      | None \<Rightarrow> MaxHops (Tracer op))"

definition hop_table :: "OPMTR \<Rightarrow> (int \<rightharpoonup> Reply) \<Rightarrow> string \<Rightarrow> IP \<Rightarrow> hups" where
  "hop_table op routes dst dstIP =
     map (\<lambda>i. (i, hop_at routes i)) [1..walk_end op routes dst dstIP]"

text \<open>A hop whose host is \<open>???\<close> carries the statistics of discovery.\<close>

definition unknown_zero :: "MTRHup \<Rightarrow> bool" where
  "unknown_zero h \<longleftrightarrow>
     (Host h = ''???'' \<longrightarrow> Loss h = 1 \<and> Last h = 0 \<and> Avg h = 0 \<and> Best h = 0 \<and> Wrst h = 0)"

subsection \<open>IP literals, and Go's \<^verbatim>\<open>net.ParseIP\<close>\<close>

text \<open>
  \<^verbatim>\<open>net.ParseIP\<close> and \<^verbatim>\<open>IP.String\<close> belong to Go's standard library, not to this
  package. This is the language the library accepts and the text it prints, as
  its documentation and its behaviour give them.

  A valid IPv4 literal: four decimal fields separated by dots, each of one to
  three digits, without a leading zero, and at most 255.
\<close>

fun split_on :: "char \<Rightarrow> string \<Rightarrow> string list" where
  "split_on sep [] = [[]]"
| "split_on sep (c # cs) =
     (if c = sep then [] # split_on sep cs
      else (case split_on sep cs of [] \<Rightarrow> [[c]] | f # fs \<Rightarrow> (c # f) # fs))"

definition decimal :: "string \<Rightarrow> nat" where
  "decimal f = foldl (\<lambda>n c. 10 * n + (of_char c - 48)) 0 f"

definition octet :: "string \<Rightarrow> bool" where
  "octet f \<longleftrightarrow> f \<noteq> [] \<and> length f \<le> 3 \<and> list_all (\<lambda>c. c \<in> set ''0123456789'') f
     \<and> (length f = 1 \<or> hd f \<noteq> CHR ''0'') \<and> decimal f \<le> 255"

definition is_ipv4_literal :: "string \<Rightarrow> bool" where
  "is_ipv4_literal s \<longleftrightarrow>
     length (split_on CHR ''.'' s) = 4 \<and> list_all octet (split_on CHR ''.'' s)"

text \<open>
  A valid IPv6 literal: fields of one to four hexadecimal digits separated by
  colons, of which the last may be an IPv4 literal standing for two fields; eight
  fields, or fewer with one \<^verbatim>\<open>::\<close> that stands for the missing fields, at least one,
  all zero. \<open>parse_ipv6\<close> gives the eight fields.
\<close>

definition hex_val :: "char \<Rightarrow> nat" where
  "hex_val c =
     (if c \<in> set ''0123456789'' then of_char c - 48
      else if c \<in> set ''abcdef'' then of_char c - 87
      else of_char c - 55)"

definition hexadecimal :: "string \<Rightarrow> nat" where
  "hexadecimal f = foldl (\<lambda>n c. 16 * n + hex_val c) 0 f"

definition hex_group :: "string \<Rightarrow> bool" where
  "hex_group f \<longleftrightarrow> f \<noteq> [] \<and> length f \<le> 4
     \<and> list_all (\<lambda>c. c \<in> set ''0123456789abcdefABCDEF'') f"

definition ipv4_groups :: "string \<Rightarrow> nat list" where
  "ipv4_groups s =
     (let ds = map decimal (split_on CHR ''.'' s)
      in [256 * (ds ! 0) + ds ! 1, 256 * (ds ! 2) + ds ! 3])"

fun groups6 :: "string list \<Rightarrow> nat list option" where
  "groups6 [] = Some []"
| "groups6 [f] =
     (if hex_group f then Some [hexadecimal f]
      else if is_ipv4_literal f then Some (ipv4_groups f)
      else None)"
| "groups6 (f # fs) =
     (if hex_group f then map_option ((#) (hexadecimal f)) (groups6 fs) else None)"

definition part6 :: "string \<Rightarrow> nat list option" where
  "part6 s = (if s = [] then Some [] else groups6 (split_on CHR '':'' s))"

definition hex_part6 :: "string \<Rightarrow> nat list option" where
  "hex_part6 s =
     (if s = [] then Some []
      else if list_all hex_group (split_on CHR '':'' s)
           then Some (map hexadecimal (split_on CHR '':'' s))
           else None)"

fun cut_ellipsis :: "string \<Rightarrow> (string \<times> string) option" where
  "cut_ellipsis (c # d # cs) =
     (if c = CHR '':'' \<and> d = CHR '':'' then Some ([], cs)
      else map_option (\<lambda>(l, r). (c # l, r)) (cut_ellipsis (d # cs)))"
| "cut_ellipsis cs = None"

definition parse_ipv6 :: "string \<Rightarrow> nat list option" where
  "parse_ipv6 s =
     (case cut_ellipsis s of
        None \<Rightarrow>
          (case part6 s of
             Some gs \<Rightarrow> if length gs = 8 then Some gs else None
           | None \<Rightarrow> None)
      | Some (l, r) \<Rightarrow>
          (case (hex_part6 l, part6 r) of
             (Some gl, Some gr) \<Rightarrow>
               if length gl + length gr \<le> 7
               then Some (gl @ replicate (8 - (length gl + length gr)) 0 @ gr)
               else None
           | _ \<Rightarrow> None))"

definition is_ipv6_literal :: "string \<Rightarrow> bool" where
  "is_ipv6_literal s \<longleftrightarrow> parse_ipv6 s \<noteq> None"

text \<open>The address as eight fields of 16 bits; an IPv4 address is kept in its
  IPv4-mapped form, as the library does.\<close>

definition parse_ip :: "string \<Rightarrow> nat list option" where
  "parse_ip s =
     (if is_ipv4_literal s then Some ([0, 0, 0, 0, 0, 65535] @ ipv4_groups s)
      else parse_ipv6 s)"

text \<open>
  \<^verbatim>\<open>IP.String\<close>: dotted decimal for an IPv4-mapped address; else the fields in
  lower-case hexadecimal without leading zeros, the first longest run of two or
  more zero fields replaced by \<^verbatim>\<open>::\<close>.
\<close>

function show_base :: "nat \<Rightarrow> nat \<Rightarrow> string" where
  "show_base b n =
     (if n < b \<or> b < 2 then [''0123456789abcdef'' ! n]
      else show_base b (n div b) @ [''0123456789abcdef'' ! (n mod b)])"
  by pat_completeness auto
termination
  by (relation "measure snd") auto

fun join :: "char \<Rightarrow> string list \<Rightarrow> string" where
  "join sep [] = []"
| "join sep [f] = f"
| "join sep (f # fs) = f @ sep # join sep fs"

definition zero_run :: "nat list \<Rightarrow> nat \<Rightarrow> nat" where
  "zero_run gs i = length (takeWhile (\<lambda>g. g = 0) (drop i gs))"

definition longest_zero_run :: "nat list \<Rightarrow> nat \<times> nat" where
  "longest_zero_run gs =
     fold (\<lambda>i (start, len). if zero_run gs i > len then (i, zero_run gs i) else (start, len))
       [0..<8] (0, 0)"

definition string6 :: "nat list \<Rightarrow> string" where
  "string6 gs =
     (let (start, len) = longest_zero_run gs
      in if len \<ge> 2
         then join CHR '':'' (map (show_base 16) (take start gs)) @ ''::''
              @ join CHR '':'' (map (show_base 16) (drop (start + len) gs))
         else join CHR '':'' (map (show_base 16) gs))"

definition IP_String :: "nat list \<Rightarrow> string" where
  "IP_String gs =
     (if take 6 gs = [0, 0, 0, 0, 0, 65535]
      then join CHR ''.'' (map (show_base 10)
             [gs ! 6 div 256, gs ! 6 mod 256, gs ! 7 div 256, gs ! 7 mod 256])
      else string6 gs)"

declare show_base.simps [simp del]

text \<open>\<^verbatim>\<open>net.ParseIP\<close> followed by \<^verbatim>\<open>String()\<close>; \<open>None\<close> is the nil result.\<close>

definition net_ParseIP :: "string \<Rightarrow> IP option" where
  "net_ParseIP s = map_option IP_String (parse_ip s)"

subsection \<open>The environments of the closed examples\<close>

text \<open>Nothing answers: the trace delivers no reply and every probe times out.\<close>

definition env_silent :: env where
  "env_silent =
     \<lparr>ParseIP = net_ParseIP, Trace_env = (\<lambda>ip. ([], None)),
      ping_env = (\<lambda>i j ip ttl timeout. (None, None)), scan_env = (\<lambda>i j. []), now = 0\<rparr>"

text \<open>The destination answers the trace at TTL 1 after 1 s; of the two later probes of
  hop 1 the first times out and the second is answered after 4 s.\<close>

definition env_lossy :: env where
  "env_lossy =
     \<lparr>ParseIP = net_ParseIP,
      Trace_env = (\<lambda>ip. ([\<lparr>Hops = 1, IP = ''1.2.3.4'', RTT = 1000000000\<rparr>], None)),
      ping_env = (\<lambda>i j ip ttl timeout.
        if i = 1 \<and> j = 2 then (Some \<lparr>Hops = 1, IP = ''1.2.3.4'', RTT = 4000000000\<rparr>, None)
        else (None, None)),
      scan_env = (\<lambda>i j. []), now = 0\<rparr>"

text \<open>The trace delivers no reply; the first retry of hop 1, a probe to the destination
  with TTL 1, is answered by 10.0.0.1 after 1 s.\<close>

definition env_comeback :: env where
  "env_comeback =
     \<lparr>ParseIP = net_ParseIP, Trace_env = (\<lambda>ip. ([], None)),
      ping_env = (\<lambda>i j ip ttl timeout.
        if i = 1 \<and> j = 1 \<and> ip = ''1.2.3.4'' \<and> ttl = 1
        then (Some \<lparr>Hops = 1, IP = ''10.0.0.1'', RTT = 1000000000\<rparr>, None)
        else (None, None)),
      scan_env = (\<lambda>i j. []), now = 0\<rparr>"

text \<open>The trace is answered at TTL 1 only, by 10.0.0.1 after 1 s; the first retry of
  hop 2 is answered by 10.0.0.1 again, and no other probe is answered.\<close>

definition env_gap :: env where
  "env_gap =
     \<lparr>ParseIP = net_ParseIP,
      Trace_env = (\<lambda>ip. ([\<lparr>Hops = 1, IP = ''10.0.0.1'', RTT = 1000000000\<rparr>], None)),
      ping_env = (\<lambda>i j ip ttl timeout.
        if i = 2 \<and> j = 1 then (Some \<lparr>Hops = 2, IP = ''10.0.0.1'', RTT = 1000000000\<rparr>, None)
        else (None, None)),
      scan_env = (\<lambda>i j. []), now = 0\<rparr>"

text \<open>The destination answers the trace at TTL 1, and every later probe of hop 1 is
  answered; each round trip takes 100 microseconds.\<close>

definition env_steady :: env where
  "env_steady =
     \<lparr>ParseIP = net_ParseIP,
      Trace_env = (\<lambda>ip. ([\<lparr>Hops = 1, IP = ''1.2.3.4'', RTT = 100000\<rparr>], None)),
      ping_env = (\<lambda>i j ip ttl timeout.
        (Some \<lparr>Hops = 1, IP = ''1.2.3.4'', RTT = 100000\<rparr>, None)),
      scan_env = (\<lambda>i j. []), now = 0\<rparr>"

definition op_sample :: "int \<Rightarrow> int \<Rightarrow> int \<Rightarrow> Duration \<Rightarrow> OPMTR" where
  "op_sample maxHops count maxUnknowns timeout =
     \<lparr>Tracer = \<lparr>Timeout = timeout, MaxHops = maxHops, Addr = ''0.0.0.0''\<rparr>,
      MaxUnknowns = maxUnknowns, PingCount = count\<rparr>"

section \<open>Properties\<close>

subsection \<open>Rounding\<close>

lemma fl64_0 [simp]: "fl64 0 = 0"
  by (simp add: fl64_def)

lemma round_even_of_int [simp]: "round_even (of_int n) = n"
  by (simp add: round_even_def)

lemma round_even_numeral [simp]: "round_even (numeral n) = numeral n"
  using round_even_of_int[of "numeral n"] by simp

lemma round_even_1 [simp]: "round_even 1 = 1"
  using round_even_of_int[of 1] by simp

lemma fl64_eval:
  assumes "2 ^ 52 \<le> \<bar>x\<bar> * 2 ^ k" and "\<bar>x\<bar> * 2 ^ k < 2 ^ 53"
  shows "fl64 x = of_int (round_even (x * 2 ^ k)) / 2 ^ k"
proof -
  have x0: "x \<noteq> 0" using assms(1) by auto
  then have pos: "0 < \<bar>x\<bar>" by simp
  have p: "(2::real) powr (52 - real k) = 2 ^ 52 / 2 ^ k"
    by (simp only: powr_diff powr_realpow powr_numeral)
  have p1: "(2::real) powr (53 - real k) = 2 ^ 53 / 2 ^ k"
    by (simp only: powr_diff powr_realpow powr_numeral)
  have "(2::real) powr (52 - real k) \<le> \<bar>x\<bar>" "\<bar>x\<bar> < 2 powr (53 - real k)"
    unfolding p p1 using assms by (simp_all add: field_simps)
  then have "\<lfloor>log 2 \<bar>x\<bar>\<rfloor> = 52 - int k"
    using floor_log_eq_powr_iff[OF pos, of 2 "52 - int k"] by (simp add: algebra_simps)
  then have e: "\<lfloor>log 2 \<bar>x\<bar>\<rfloor> - 52 = - int k" by simp
  have "(2::real) powr of_int (- int k) = 1 / 2 ^ k"
    by (simp add: powr_minus powr_realpow divide_simps)
  then show ?thesis
    using x0 by (simp add: fl64_def e Let_def)
qed

lemma fl64_1 [simp]: "fl64 1 = 1"
  using fl64_eval[of 1 52] by simp

text \<open>The whole numbers of the examples are \<^verbatim>\<open>float64\<close> numbers, and so is a half.\<close>

lemma fl64_whole [simp]:
  "fl64 2 = 2" "fl64 4 = 4" "fl64 500 = 500" "fl64 1000 = 1000" "fl64 2000 = 2000"
  "fl64 4000 = 4000" "fl64 6000 = 6000"
  using fl64_eval[of 2 51] fl64_eval[of 4 50] fl64_eval[of 500 44] fl64_eval[of 1000 43]
    fl64_eval[of 2000 42] fl64_eval[of 4000 41] fl64_eval[of 6000 40]
  by simp_all

lemma fl64_half [simp]: "fl64 (1 / 2) = 1 / 2"
  using fl64_eval[of "1 / 2" 53] by simp

subsection \<open>Discovery\<close>

lemma consecutive_unknowns_step:
  "1 \<le> i \<Longrightarrow> consecutive_unknowns routes i =
     (if routes i = None then consecutive_unknowns routes (i - 1) + 1 else 0)"
  by (simp add: consecutive_unknowns_def upto_rec2)

lemma consecutive_unknowns_0: "consecutive_unknowns routes 0 = 0"
  by (simp add: consecutive_unknowns_def)

lemma update_fresh:
  "k \<notin> fst ` set al \<Longrightarrow> AList.update k v al = al @ [(k, v)]"
  by (induct al) auto

lemma update_same_last:
  "k \<notin> fst ` set al \<Longrightarrow> AList.update k v (al @ [(k, w)]) = al @ [(k, v)]"
  by (induct al) auto

lemma find_upto_first:
  "\<forall>k\<in>{a..i - 1}. \<not> P k \<Longrightarrow> P i \<Longrightarrow> a \<le> i \<Longrightarrow> i \<le> n \<Longrightarrow> find P [a..n] = Some i"
proof (induction a n rule: upto.induct)
  case (1 a n)
  show ?case
  proof (cases "a = i")
    case True
    with 1(3,5) show ?thesis by (simp add: upto_rec1)
  next
    case False
    with 1 have "find P [a + 1..n] = Some i" by simp
    moreover from False 1 have "\<not> P a" by simp
    moreover from 1 have "[a..n] = a # [a + 1..n]" by (simp add: upto_rec1)
    ultimately show ?thesis by simp
  qed
qed

lemma find_upto_none:
  "\<forall>k\<in>{a..n}. \<not> P k \<Longrightarrow> find P [a..n] = None"
  by (simp add: find_None_iff)

lemma walk_end_first:
  "\<forall>k\<in>{1..i - 1}. \<not> stops_at op routes dst dstIP k \<Longrightarrow> stops_at op routes dst dstIP i \<Longrightarrow>
   1 \<le> i \<Longrightarrow> i \<le> MaxHops (Tracer op) \<Longrightarrow> walk_end op routes dst dstIP = i"
  by (simp add: walk_end_def find_upto_first)

lemma walk_end_none:
  "\<forall>k\<in>{1..MaxHops (Tracer op)}. \<not> stops_at op routes dst dstIP k \<Longrightarrow>
   walk_end op routes dst dstIP = MaxHops (Tracer op)"
  by (simp add: walk_end_def find_upto_none)

lemma table_snoc:
  "1 \<le> i \<Longrightarrow> map (\<lambda>k. (k, f k)) [1..i - 1] @ [(i, f i)] = map (\<lambda>k. (k, f k)) [1..i]"
  by (simp add: upto_rec2)

lemma update_table:
  "AList.update i h (map (\<lambda>k. (k, f k)) [1..i - 1]) = map (\<lambda>k. (k, f k)) [1..i - 1] @ [(i, h)]"
  by (rule update_fresh) (auto simp: image_iff)

lemma update_table2:
  "AList.update i h (map (\<lambda>k. (k, f k)) [1..i - 1] @ [(i, h')]) = map (\<lambda>k. (k, f k)) [1..i - 1] @ [(i, h)]"
  by (rule update_same_last) (auto simp: image_iff)

lemma trace_first_from:
  assumes "1 \<le> i" and "i \<le> MaxHops (Tracer op) + 1"
    and "hups = map (\<lambda>k. (k, hop_at routes k)) [1..i - 1]"
    and "unknownCount = consecutive_unknowns routes (i - 1)"
    and "\<forall>k\<in>{1..i - 1}. \<not> stops_at op routes dst dstIP k"
  shows "trace_first op routes dst dstIP i unknownCount hups = hop_table op routes dst dstIP"
  using assms
proof (induction "nat (MaxHops (Tracer op) + 1 - i)" arbitrary: i unknownCount hups)
  case 0
  then have i: "i = MaxHops (Tracer op) + 1" by simp
  with 0 have "walk_end op routes dst dstIP = MaxHops (Tracer op)"
    by (simp add: walk_end_none)
  with 0 i show ?case
    by (subst trace_first.simps) (simp add: hop_table_def)
next
  case (Suc n)
  then have le: "i \<le> MaxHops (Tracer op)" by simp
  let ?T = "\<lambda>j. map (\<lambda>k. (k, hop_at routes k)) [1..j]"
  have snoc: "?T (i - 1) @ [(i, hop_at routes i)] = ?T i"
    using Suc.prems(1) by (rule table_snoc)
  have stop: "stops_at op routes dst dstIP i \<Longrightarrow>
      hop_table op routes dst dstIP = ?T (i - 1) @ [(i, hop_at routes i)]"
    using Suc.prems le by (simp add: hop_table_def walk_end_first snoc)
  have cu: "consecutive_unknowns routes i =
      (if routes i = None then consecutive_unknowns routes (i - 1) + 1 else 0)"
    using Suc.prems(1) by (rule consecutive_unknowns_step)
  have rec: "\<not> stops_at op routes dst dstIP i \<Longrightarrow>
      trace_first op routes dst dstIP (i + 1) (consecutive_unknowns routes i)
        (?T (i - 1) @ [(i, hop_at routes i)]) = hop_table op routes dst dstIP"
  proof -
    assume ns: "\<not> stops_at op routes dst dstIP i"
    have "n = nat (MaxHops (Tracer op) + 1 - (i + 1))" using Suc.hyps(2) by simp
    moreover have "\<forall>k\<in>{1..i + 1 - 1}. \<not> stops_at op routes dst dstIP k"
    proof
      fix k assume "k \<in> {1..i + 1 - 1}"
      then have "k \<in> {1..i - 1} \<or> k = i" by auto
      with ns Suc.prems(5) show "\<not> stops_at op routes dst dstIP k" by auto
    qed
    ultimately show ?thesis
      using Suc.hyps(1)[of "i + 1" "?T i" "consecutive_unknowns routes i"] Suc.prems(1) le
      by (simp add: snoc)
  qed
  show ?case
  proof (cases "routes i")
    case None
    then have h: "hop_at routes i = unknown_hop i" by (simp add: hop_at_def)
    show ?thesis
    proof (cases "stops_at op routes dst dstIP i")
      case True
      with None h cu Suc.prems(3,4) le stop show ?thesis
        by (subst trace_first.simps)
           (auto simp: Let_def update_table update_table2 stops_at_def unknown_hop_def)
    next
      case False
      with None h cu Suc.prems(3,4) le rec show ?thesis
        by (subst trace_first.simps)
           (auto simp: Let_def update_table update_table2 stops_at_def unknown_hop_def)
    qed
  next
    case (Some r)
    then have h: "hop_at routes i = known_hop i r" by (simp add: hop_at_def)
    show ?thesis
    proof (cases "stops_at op routes dst dstIP i")
      case True
      with Some h cu Suc.prems(3,4) le stop show ?thesis
        by (subst trace_first.simps)
           (auto simp: Let_def update_table update_table2 stops_at_def known_hop_def)
    next
      case False
      with Some h cu Suc.prems(3,4) le rec show ?thesis
        by (subst trace_first.simps)
           (auto simp: Let_def update_table update_table2 stops_at_def known_hop_def)
    qed
  qed
qed

lemma trace_first_hop_table:
  "trace_first op routes dst dstIP 1 0 [] = hop_table op routes dst dstIP"
proof (cases "0 \<le> MaxHops (Tracer op)")
  case True
  then show ?thesis
    by (intro trace_first_from) (simp_all add: consecutive_unknowns_def)
next
  case False
  then show ?thesis
    by (subst trace_first.simps) (simp add: hop_table_def walk_end_def)
qed


subsection \<open>The loop over the hops and the report\<close>

lemma update_self_mem: "(i, h) \<in> set (AList.update i h al)"
  by (induct al) auto

lemma update_keys_same:
  "i \<in> fst ` set al \<Longrightarrow> map fst (AList.update i h al) = map fst al"
  by (simp add: update_keys)

lemma ping_hops_general:
  "distinct is \<Longrightarrow> set is \<subseteq> fst ` set hups \<Longrightarrow>
   \<exists>hups'. ping_hops body is hups = Some hups' \<and> map fst hups' = map fst hups \<and>
     (\<forall>k v. map_of hups k = Some v \<longrightarrow>
        (if k \<in> set is then \<exists>t. map_of hups' k = Some (body t k v)
         else map_of hups' k = Some v))"
proof (induction "is" arbitrary: hups)
  case Nil
  then show ?case by simp
next
  case (Cons i "is")
  from Cons.prems have "i \<in> fst ` set hups" by simp
  then obtain hup where hup: "map_of hups i = Some hup"
    by (metis domD dom_map_of_conv_image_fst)
  let ?h1 = "AList.update i (body hups i hup) hups"
  have keys1: "map fst ?h1 = map fst hups"
    using \<open>i \<in> fst ` set hups\<close> by (rule update_keys_same)
  then have "set (map fst ?h1) = set (map fst hups)" by simp
  then have sub: "set is \<subseteq> fst ` set ?h1" using Cons.prems by simp
  from Cons.prems have d: "distinct is" and ni: "i \<notin> set is" by simp_all
  from Cons.IH[OF d sub] obtain hups' where
    r: "ping_hops body is ?h1 = Some hups'" and k: "map fst hups' = map fst ?h1"
    and m: "\<forall>k v. map_of ?h1 k = Some v \<longrightarrow>
        (if k \<in> set is then \<exists>t. map_of hups' k = Some (body t k v)
         else map_of hups' k = Some v)"
    by blast
  have "\<forall>k v. map_of hups k = Some v \<longrightarrow>
        (if k \<in> set (i # is) then \<exists>t. map_of hups' k = Some (body t k v)
         else map_of hups' k = Some v)"
  proof (intro allI impI)
    fix k v assume kv: "map_of hups k = Some v"
    show "if k \<in> set (i # is) then \<exists>t. map_of hups' k = Some (body t k v)
         else map_of hups' k = Some v"
    proof (cases "k = i")
      case True
      with kv hup have "v = hup" by simp
      moreover have "map_of ?h1 i = Some (body hups i hup)" by (simp add: update_conv')
      ultimately have "map_of hups' i = Some (body hups i v)" using m ni by auto
      with True show ?thesis by auto
    next
      case False
      with kv have "map_of ?h1 k = Some v" by (simp add: update_conv')
      with m False show ?thesis by auto
    qed
  qed
  with r k keys1 hup show ?case by simp
qed

lemma those_map_Some: "those (map (\<lambda>x. Some (f x)) xs) = Some (map f xs)"
  by (induction xs) simp_all

lemma those_map_of_keys:
  assumes "distinct (map fst al)"
  shows "those (map (map_of al) (map fst al)) = Some (map snd al)"
proof -
  have "map_of al (fst p) = Some (snd p)" if "p \<in> set al" for p
    using assms that by (cases p) simp
  then have "map (map_of al) (map fst al) = map (\<lambda>p. Some (snd p)) al"
    by simp
  then show ?thesis by (simp only: those_map_Some)
qed

lemma hop_table_keys: "map fst (hop_table op routes dst dstIP) = [1..walk_end op routes dst dstIP]"
  by (simp add: hop_table_def comp_def)

lemma hop_table_length:
  "[1..int (length (hop_table op routes dst dstIP))] = [1..walk_end op routes dst dstIP]"
  by (cases "1 \<le> walk_end op routes dst dstIP") (simp_all add: hop_table_def)

lemma distinct_hop_table: "distinct (map fst (hop_table op routes dst dstIP))"
  by (simp add: hop_table_keys)

lemma run_with_ok:
  assumes p: "ParseIP e dst = Some dstIP" and t: "Trace_env e dstIP = (replies, None)"
  shows "\<exists>vs. run_with body e op dst =
           Some (\<lparr>Time = now e, Src = Addr (Tracer op), Dst = dst, Count = PingCount op,
                  Hups = vs\<rparr>, None) \<and>
         list_all2 (\<lambda>k h. \<exists>t. h = body e op dstIP t k (hop_at (fold on_reply replies Map.empty) k))
           [1..walk_end op (fold on_reply replies Map.empty) dst dstIP] vs"
proof -
  let ?routes = "fold on_reply replies Map.empty"
  let ?D = "hop_table op ?routes dst dstIP"
  let ?N = "walk_end op ?routes dst dstIP"
  have idx: "[1..int (length ?D)] = map fst ?D"
    by (simp only: hop_table_length hop_table_keys)
  have "distinct (map fst ?D)" by (rule distinct_hop_table)
  moreover have "set (map fst ?D) \<subseteq> fst ` set ?D" by simp
  ultimately obtain hups' where
    r: "ping_hops (body e op dstIP) (map fst ?D) ?D = Some hups'"
    and k: "map fst hups' = map fst ?D"
    and m: "\<forall>k v. map_of ?D k = Some v \<longrightarrow>
        (if k \<in> set (map fst ?D) then \<exists>t. map_of hups' k = Some (body e op dstIP t k v)
         else map_of hups' k = Some v)"
    using ping_hops_general[of "map fst ?D" ?D "body e op dstIP"] by blast
  have dk: "distinct (map fst hups')" using k distinct_hop_table by simp
  have th: "those (map (map_of hups') (map fst ?D)) = Some (map snd hups')"
    using those_map_of_keys[OF dk] k by simp
  have res: "run_with body e op dst =
           Some (\<lparr>Time = now e, Src = Addr (Tracer op), Dst = dst, Count = PingCount op,
                  Hups = map snd hups'\<rparr>, None)"
    using p t r th
    by (simp add: run_with_def Let_def trace_first_hop_table idx del: map_map)
  have len: "length [1..?N] = length (map snd hups')"
    using k hop_table_keys[of op ?routes dst dstIP] by (metis length_map)
  have "list_all2 (\<lambda>k h. \<exists>t. h = body e op dstIP t k (hop_at ?routes k)) [1..?N] (map snd hups')"
  proof (rule list_all2_all_nthI[OF len])
    fix n assume n: "n < length [1..?N]"
    let ?k = "[1..?N] ! n"
    have kin: "?k \<in> set [1..?N]" using n by (rule nth_mem)
    have nD: "n < length ?D" using n by (simp add: hop_table_def)
    have "?D ! n = (?k, hop_at ?routes ?k)" using n by (simp add: hop_table_def)
    then have "(?k, hop_at ?routes ?k) \<in> set ?D" using nD by (metis nth_mem)
    then have "map_of ?D ?k = Some (hop_at ?routes ?k)"
      using distinct_hop_table by (simp add: map_of_is_SomeI del: distinct_upto)
    moreover have "?k \<in> set (map fst ?D)" using kin by (simp only: hop_table_keys)
    ultimately obtain t where t: "map_of hups' ?k = Some (body e op dstIP t ?k (hop_at ?routes ?k))"
      using m by (metis (full_types))
    have nh: "n < length hups'" using len n by simp
    have "fst (hups' ! n) = ?k"
      using k nh hop_table_keys[of op ?routes dst dstIP] by (metis nth_map)
    moreover have "hups' ! n \<in> set hups'" using nh by (rule nth_mem)
    ultimately have "map_of hups' ?k = Some (snd (hups' ! n))"
      using dk by (metis map_of_is_SomeI prod.collapse)
    with t have "snd (hups' ! n) = body e op dstIP t ?k (hop_at ?routes ?k)" by simp
    then show "\<exists>t. map snd hups' ! n = body e op dstIP t ([1..?N] ! n) (hop_at ?routes ([1..?N] ! n))"
      using nh by auto
  qed
  with res show ?thesis by blast
qed

lemma run_with_success:
  assumes "run_with body e op dst = Some (rep, None)"
  shows "\<exists>dstIP replies. ParseIP e dst = Some dstIP \<and> Trace_env e dstIP = (replies, None) \<and>
         list_all2 (\<lambda>k h. \<exists>t. h = body e op dstIP t k (hop_at (fold on_reply replies Map.empty) k))
           [1..walk_end op (fold on_reply replies Map.empty) dst dstIP] (Hups rep)"
proof (cases "ParseIP e dst")
  case None
  with assms show ?thesis by (simp add: run_with_def)
next
  case (Some dstIP)
  obtain replies err where t: "Trace_env e dstIP = (replies, err)" by (cases "Trace_env e dstIP")
  show ?thesis
  proof (cases err)
    case None
    from run_with_ok[OF Some t[unfolded None], of body op] assms Some t None
    show ?thesis by auto
  next
    case (Some msg)
    with assms \<open>ParseIP e dst = Some dstIP\<close> t show ?thesis
      by (simp add: run_with_def)
  qed
qed

lemma run_with_returns: "\<exists>r. run_with body e op dst = Some r"
proof (cases "ParseIP e dst")
  case None
  then show ?thesis by (simp add: run_with_def)
next
  case (Some dstIP)
  obtain replies err where t: "Trace_env e dstIP = (replies, err)" by (cases "Trace_env e dstIP")
  show ?thesis
  proof (cases err)
    case None
    from run_with_ok[OF Some t[unfolded None], of body op] show ?thesis by auto
  next
    case (Some msg)
    with \<open>ParseIP e dst = Some dstIP\<close> t show ?thesis by (simp add: run_with_def)
  qed
qed

subsection \<open>The body of the loop over the hops\<close>

lemma fold_invariant:
  "(\<And>x s. P s \<Longrightarrow> P (f x s)) \<Longrightarrow> P s \<Longrightarrow> P (fold f xs s)"
  by (induction xs arbitrary: s) simp_all

lemma fold_count:
  "(\<And>x s. m (f x s) = m s + 1) \<Longrightarrow> m (fold f xs s) = m s + real (length xs)"
  by (induction xs arbitrary: s) simp_all

lemma record_rtt_fields [simp]:
  "MTRHup.Count (record_rtt rtt hup) = MTRHup.Count hup"
  "Host (record_rtt rtt hup) = Host hup"
  "Snt (record_rtt rtt hup) = Snt hup"
  "Loss (record_rtt rtt hup) = Loss hup"
  "LossPoint (record_rtt rtt hup) = LossPoint hup"
  "Last (record_rtt rtt hup) = rtt"
  by (simp_all add: record_rtt_def Let_def)

lemma final_loss_fields [simp]:
  "MTRHup.Count (final_loss hup) = MTRHup.Count hup"
  "Host (final_loss hup) = Host hup"
  "Snt (final_loss hup) = Snt hup"
  "LossPoint (final_loss hup) = LossPoint hup"
  "Last (final_loss hup) = Last hup"
  "Avg (final_loss hup) = Avg hup"
  "Best (final_loss hup) = Best hup"
  "Wrst (final_loss hup) = Wrst hup"
  by (simp_all add: final_loss_def)

lemma no_retry_ping_Count [simp]:
  "MTRHup.Count (no_retry_ping op ping hup) = MTRHup.Count hup"
  by (simp add: no_retry_ping_def Let_def split: prod.splits option.splits)

lemma no_retry_ping_Snt [simp]:
  "Snt (no_retry_ping op ping hup) = Snt hup + 1"
  by (simp add: no_retry_ping_def Let_def split: prod.splits option.splits)

lemma retry_ping_Count [simp]:
  "MTRHup.Count (fst (retry_ping op dstIP ping hupsCopy hs)) = MTRHup.Count (fst hs)"
  by (cases hs) (simp add: retry_ping_def Let_def split: prod.splits option.splits)

lemma retry_ping_Snt [simp]:
  "Snt (fst (retry_ping op dstIP ping hupsCopy hs)) = Snt (fst hs) + 1"
  by (cases hs) (simp add: retry_ping_def Let_def split: prod.splits option.splits)

lemma body_Count:
  "MTRHup.Count (hop_no_retry e op dstIP t k v) = MTRHup.Count v"
  "MTRHup.Count (hop_retry e op dstIP t k v) = MTRHup.Count v"
  "MTRHup.Count (hop_worker e op dstIP t k v) = MTRHup.Count v"
proof -
  show "MTRHup.Count (hop_no_retry e op dstIP t k v) = MTRHup.Count v"
    unfolding hop_no_retry_def final_loss_fields
    by (rule fold_invariant[where P="\<lambda>h. MTRHup.Count h = MTRHup.Count v"]) simp_all
  show "MTRHup.Count (hop_retry e op dstIP t k v) = MTRHup.Count v"
    unfolding hop_retry_def final_loss_fields
    by (rule fold_invariant[where P="\<lambda>hs. MTRHup.Count (fst hs) = MTRHup.Count v"]) simp_all
  show "MTRHup.Count (hop_worker e op dstIP t k v) = MTRHup.Count v"
    unfolding hop_worker_def final_loss_fields
    by (rule fold_invariant[where P="\<lambda>hs. MTRHup.Count (fst hs) = MTRHup.Count v"]) simp_all
qed

lemma body_Snt:
  assumes "1 \<le> PingCount op"
  shows "Snt (hop_no_retry e op dstIP t k v) = Snt v + real_of_int (PingCount op - 1)"
    and "Snt (hop_retry e op dstIP t k v) = Snt v + real_of_int (PingCount op - 1)"
    and "Snt (hop_worker e op dstIP t k v) = Snt v + real_of_int (PingCount op - 1)"
proof -
  let ?js = "[1..PingCount op - 1]"
  have len: "real (length ?js) = real_of_int (PingCount op - 1)"
    using assms by simp
  have "Snt (fold (\<lambda>j. no_retry_ping op (ping_env e k j)) ?js v) = Snt v + real (length ?js)"
    by (rule fold_count) simp
  then show "Snt (hop_no_retry e op dstIP t k v) = Snt v + real_of_int (PingCount op - 1)"
    by (simp only: hop_no_retry_def final_loss_fields len)
  have "Snt (fst (fold (\<lambda>j. retry_ping op dstIP (ping_env e k j)
            (\<lambda>h. map snd (AList.update k h t))) ?js (v, locals_init op)))
        = Snt (fst (v, locals_init op)) + real (length ?js)"
    by (rule fold_count[where m="\<lambda>hs. Snt (fst hs)"]) simp
  then show "Snt (hop_retry e op dstIP t k v) = Snt v + real_of_int (PingCount op - 1)"
    by (simp only: hop_retry_def final_loss_fields len fst_conv)
  have "Snt (fst (fold (\<lambda>j. retry_ping op dstIP (ping_env e k j)
            (\<lambda>h. h # scan_env e k j)) ?js (v, locals_init op)))
        = Snt (fst (v, locals_init op)) + real (length ?js)"
    by (rule fold_count[where m="\<lambda>hs. Snt (fst hs)"]) simp
  then show "Snt (hop_worker e op dstIP t k v) = Snt v + real_of_int (PingCount op - 1)"
    by (simp only: hop_worker_def final_loss_fields len fst_conv)
qed

subsection \<open>The report\<close>

lemma run_hop_body: "run v = run_with (hop_body v)"
  by (cases v)
     (simp_all add: run_def hop_body_def RunMTRWithNoRetryPing_def RunMTR_def
        RunMTRWithCocurrentPing_def)

lemma hop_body_Count: "MTRHup.Count (hop_body v e op dstIP t k h) = MTRHup.Count h"
  by (cases v) (simp_all add: hop_body_def body_Count)

lemma hop_body_Snt:
  "1 \<le> PingCount op \<Longrightarrow>
   Snt (hop_body v e op dstIP t k h) = Snt h + real_of_int (PingCount op - 1)"
  by (cases v) (simp_all add: hop_body_def body_Snt)

lemma hop_at_fields [simp]:
  "MTRHup.Count (hop_at routes k) = k"
  "Snt (hop_at routes k) = 1"
  by (simp_all add: hop_at_def known_hop_def unknown_hop_def split: option.splits)

lemma walk_end_le: "walk_end op routes dst dstIP \<le> MaxHops (Tracer op)"
proof (cases "find (stops_at op routes dst dstIP) [1..MaxHops (Tracer op)]")
  case None
  then show ?thesis by (simp add: walk_end_def)
next
  case (Some n)
  then have "n \<in> set [1..MaxHops (Tracer op)]"
    by (auto simp: find_Some_iff)
  with Some show ?thesis by (simp add: walk_end_def)
qed

lemma run_success:
  assumes "run v e op dst = Some (rep, None)"
  shows "\<exists>dstIP replies. ParseIP e dst = Some dstIP \<and> Trace_env e dstIP = (replies, None) \<and>
         list_all2 (\<lambda>k h. \<exists>t. h = hop_body v e op dstIP t k (hop_at (fold on_reply replies Map.empty) k))
           [1..walk_end op (fold on_reply replies Map.empty) dst dstIP] (Hups rep)"
  using assms unfolding run_hop_body by (rule run_with_success)

lemma run_hop_origin:
  assumes "run v e op dst = Some (rep, None)" and "h \<in> set (Hups rep)"
  shows "\<exists>dstIP replies k t. ParseIP e dst = Some dstIP \<and> Trace_env e dstIP = (replies, None) \<and>
         h = hop_body v e op dstIP t k (hop_at (fold on_reply replies Map.empty) k)"
proof -
  from run_success[OF assms(1)] obtain dstIP replies where
    p: "ParseIP e dst = Some dstIP" and t: "Trace_env e dstIP = (replies, None)"
    and l: "list_all2 (\<lambda>k h. \<exists>t. h = hop_body v e op dstIP t k (hop_at (fold on_reply replies Map.empty) k))
           [1..walk_end op (fold on_reply replies Map.empty) dst dstIP] (Hups rep)"
    by blast
  from assms(2) obtain n where n: "n < length (Hups rep)" "h = Hups rep ! n"
    by (auto simp: in_set_conv_nth)
  from list_all2_nthD2[OF l n(1)] n(2) p t show ?thesis by blast
qed

lemma run_error_no_hops:
  assumes "run v e op dst = Some (rep, Some x)"
  shows "Hups rep = []"
proof (cases "ParseIP e dst")
  case None
  with assms show ?thesis by (auto simp: run_hop_body run_with_def)
next
  case (Some dstIP)
  obtain replies err where "Trace_env e dstIP = (replies, err)" by (cases "Trace_env e dstIP")
  with assms Some show ?thesis
    by (auto simp: run_hop_body run_with_def Let_def split: option.splits)
qed

text \<open>A run operation always returns: no pointer it dereferences is nil, and every
  loop ends.\<close>

lemma run_returns: "\<exists>r. run v e op dst = Some r"
  unfolding run_hop_body by (rule run_with_returns)

text \<open>
  C8. In the report of a run that returns without error, the i-th hop has
  \<open>Count = i\<close>, for i from 1 to the length of the list, so the list is strictly
  ascending in \<open>Count\<close> without gaps; its length is at most \<open>max_hops\<close> (a configuration
  has \<open>max_hops \<ge> 0\<close>).
\<close>

theorem report_hops_dense:
  assumes "run v e op dst = Some (rep, None)" and "0 \<le> MaxHops (Tracer op)"
  shows "map MTRHup.Count (Hups rep) = [1..int (length (Hups rep))] \<and>
         int (length (Hups rep)) \<le> MaxHops (Tracer op)"
proof -
  from run_success[OF assms(1)] obtain dstIP replies where
    l: "list_all2 (\<lambda>k h. \<exists>t. h = hop_body v e op dstIP t k (hop_at (fold on_reply replies Map.empty) k))
           [1..walk_end op (fold on_reply replies Map.empty) dst dstIP] (Hups rep)"
    by blast
  let ?N = "walk_end op (fold on_reply replies Map.empty) dst dstIP"
  have len: "length (Hups rep) = length [1..?N]"
    using list_all2_lengthD[OF l] by simp
  have "map MTRHup.Count (Hups rep) = [1..?N]"
  proof (rule nth_equalityI)
    show "length (map MTRHup.Count (Hups rep)) = length [1..?N]" using len by simp
  next
    fix n assume n: "n < length (map MTRHup.Count (Hups rep))"
    then have n': "n < length (Hups rep)" by simp
    from list_all2_nthD2[OF l n'] obtain t where
      "Hups rep ! n = hop_body v e op dstIP t ([1..?N] ! n) (hop_at (fold on_reply replies Map.empty) ([1..?N] ! n))"
      by blast
    then have "MTRHup.Count (Hups rep ! n) = [1..?N] ! n"
      by (simp add: hop_body_Count)
    with n' show "map MTRHup.Count (Hups rep) ! n = [1..?N] ! n" by simp
  qed
  moreover have "[1..int (length (Hups rep))] = [1..?N]"
    unfolding len by (cases "1 \<le> ?N") simp_all
  moreover have "int (length (Hups rep)) \<le> MaxHops (Tracer op)"
    unfolding len using walk_end_le[of op "fold on_reply replies Map.empty" dst dstIP] assms(2)
    by simp
  ultimately show ?thesis by simp
qed

text \<open>
  C10. In every operation, every hop of the report a run returns (with or without
  an error) has \<open>Snt = ping_count\<close>, when \<open>ping_count \<ge> 1\<close>.
\<close>

theorem report_Snt_is_ping_count:
  assumes "run v e op dst = Some (rep, err)" and "1 \<le> PingCount op"
    and "h \<in> set (Hups rep)"
  shows "Snt h = real_of_int (PingCount op)"
proof (cases err)
  case (Some x)
  with assms(1,3) run_error_no_hops[of v e op dst rep x] show ?thesis by simp
next
  case None
  from run_hop_origin[OF assms(1)[unfolded None] assms(3)] obtain dstIP replies k t where
    "h = hop_body v e op dstIP t k (hop_at (fold on_reply replies Map.empty) k)"
    by blast
  then show ?thesis using assms(2) by (simp add: hop_body_Snt)
qed

subsection \<open>Unknown hops\<close>

lemma update_distinct_set:
  "distinct (map fst al) \<Longrightarrow>
   set (AList.update i h al) = insert (i, h) {p \<in> set al. fst p \<noteq> i}"
  by (induct al) (auto simp: image_iff)

lemma fold_on_reply_mem:
  "fold on_reply replies m k = Some r \<Longrightarrow> r \<in> set replies \<or> m k = Some r"
proof (induction replies arbitrary: m)
  case Nil
  then show ?case by simp
next
  case (Cons a replies)
  from Cons.IH[of "on_reply a m"] Cons.prems
  have "r \<in> set replies \<or> on_reply a m k = Some r" by simp
  then show ?case
    by (auto simp: on_reply_def split: option.splits if_splits)
qed

lemma routes_mem:
  "fold on_reply replies Map.empty k = Some r \<Longrightarrow> r \<in> set replies"
  using fold_on_reply_mem[of replies Map.empty k r] by simp

lemma no_retry_ping_Host [simp]: "Host (no_retry_ping op ping hup) = Host hup"
  by (simp add: no_retry_ping_def Let_def split: prod.splits option.splits)

lemma no_retry_ping_unknown:
  "Host hup = ''???'' \<Longrightarrow> no_retry_ping op ping hup = hup\<lparr>Snt := Snt hup + 1\<rparr>"
  by (simp add: no_retry_ping_def Let_def)

lemma fold_no_retry_unknown:
  "Host hup = ''???'' \<Longrightarrow>
   fold (\<lambda>j. no_retry_ping op (p j)) js hup = hup\<lparr>Snt := Snt hup + real (length js)\<rparr>"
proof (induction js arbitrary: hup)
  case Nil
  then show ?case by simp
next
  case (Cons j js)
  then show ?case by (simp add: no_retry_ping_unknown add.assoc)
qed

lemma fold_no_retry_Host:
  "Host (fold (\<lambda>j. no_retry_ping op (p j)) js hup) = Host hup"
  by (rule fold_invariant[where P="\<lambda>h. Host h = Host hup"]) simp_all

lemma hop_no_retry_Host: "Host (hop_no_retry e op dstIP t k h) = Host h"
  by (simp add: hop_no_retry_def fold_no_retry_Host)

lemma hop_no_retry_unknown:
  assumes "Host h = ''???''" and "1 \<le> PingCount op"
  shows "hop_no_retry e op dstIP t k h = h\<lparr>Snt := Snt h + real_of_int (PingCount op - 1)\<rparr>"
proof -
  have "real (length [1..PingCount op - 1]) = real_of_int (PingCount op - 1)"
    using assms(2) by simp
  then show ?thesis
    using assms(1) by (simp add: hop_no_retry_def fold_no_retry_unknown final_loss_def)
qed

lemma no_retry_ping_unknown_zero:
  "unknown_zero hup \<Longrightarrow> unknown_zero (no_retry_ping op ping hup)"
  by (cases "Host hup = ''???''")
     (simp_all add: no_retry_ping_unknown, simp_all add: unknown_zero_def)

lemma retry_ping_unknown_zero:
  assumes "\<And>h. h \<in> set (hupsCopy h)" and "unknown_zero (fst hs)"
  shows "unknown_zero (fst (retry_ping op dstIP ping hupsCopy hs))"
proof (cases hs)
  case (Pair hup s)
  have self: "hup\<lparr>Snt := Snt hup + 1\<rparr> \<in> set (hupsCopy (hup\<lparr>Snt := Snt hup + 1\<rparr>))"
    by (rule assms(1))
  show ?thesis
  proof (cases "Host hup = ''???''")
    case False
    then show ?thesis
      using Pair
      by (simp add: retry_ping_def Let_def unknown_zero_def split: prod.splits option.splits)
  next
    case True
    have "IP rp \<noteq> ''???''"
      if "\<not> list_ex (\<lambda>v. Host v = IP rp) (hupsCopy (hup\<lparr>Snt := Snt hup + 1\<rparr>))" for rp
      using that self True by (auto simp: list_ex_iff)
    then show ?thesis
      using Pair True assms(2)
      by (auto simp: retry_ping_def Let_def unknown_zero_def split: prod.splits option.splits)
  qed
qed

lemma final_loss_unknown_zero: "unknown_zero h \<Longrightarrow> unknown_zero (final_loss h)"
  by (simp add: unknown_zero_def final_loss_def)

lemma hop_body_unknown_zero:
  assumes "unknown_zero h"
  shows "unknown_zero (hop_body v e op dstIP t k h)"
proof (cases v)
  case NoRetry
  have "unknown_zero (fold (\<lambda>j. no_retry_ping op (ping_env e k j)) [1..PingCount op - 1] h)"
    by (rule fold_invariant[where P=unknown_zero]) (simp_all add: no_retry_ping_unknown_zero assms)
  with NoRetry show ?thesis
    by (simp add: hop_body_def hop_no_retry_def final_loss_unknown_zero)
next
  case Sequential
  have "unknown_zero (fst (fold (\<lambda>j. retry_ping op dstIP (ping_env e k j)
          (\<lambda>h. map snd (AList.update k h t))) [1..PingCount op - 1] (h, locals_init op)))"
  proof (rule fold_invariant[where P="\<lambda>hs. unknown_zero (fst hs)"])
    fix j and hs :: "MTRHup \<times> locals" assume "unknown_zero (fst hs)"
    moreover have "\<And>h. h \<in> set (map snd (AList.update k h t))"
      using update_self_mem[of k _ t] by (force simp: image_iff)
    ultimately show "unknown_zero (fst (retry_ping op dstIP (ping_env e k j)
          (\<lambda>h. map snd (AList.update k h t)) hs))"
      by (intro retry_ping_unknown_zero)
  qed (simp add: assms)
  with Sequential show ?thesis
    by (simp add: hop_body_def hop_retry_def final_loss_unknown_zero)
next
  case Concurrent
  have "unknown_zero (fst (fold (\<lambda>j. retry_ping op dstIP (ping_env e k j)
          (\<lambda>h. h # scan_env e k j)) [1..PingCount op - 1] (h, locals_init op)))"
  proof (rule fold_invariant[where P="\<lambda>hs. unknown_zero (fst hs)"])
    fix j and hs :: "MTRHup \<times> locals" assume "unknown_zero (fst hs)"
    then show "unknown_zero (fst (retry_ping op dstIP (ping_env e k j)
          (\<lambda>h. h # scan_env e k j) hs))"
      by (intro retry_ping_unknown_zero) simp_all
  qed (simp add: assms)
  with Concurrent show ?thesis
    by (simp add: hop_body_def hop_worker_def final_loss_unknown_zero)
qed

lemma hop_at_unknown_zero:
  "\<forall>r\<in>set replies. IP r \<noteq> ''???'' \<Longrightarrow>
   unknown_zero (hop_at (fold on_reply replies Map.empty) k)"
  by (auto simp: unknown_zero_def hop_at_def known_hop_def unknown_hop_def
      split: option.splits dest: routes_mem)

lemma hop_at_unknown:
  "\<forall>r\<in>set replies. IP r \<noteq> ''???'' \<Longrightarrow>
   Host (hop_at (fold on_reply replies Map.empty) k) = ''???'' \<Longrightarrow>
   hop_at (fold on_reply replies Map.empty) k = unknown_hop k"
  by (auto simp: hop_at_def known_hop_def split: option.splits dest: routes_mem)

subsection \<open>Evaluating the closed examples\<close>

lemma net_ParseIP_None:
  "net_ParseIP s = None \<longleftrightarrow> \<not> is_ipv4_literal s \<and> \<not> is_ipv6_literal s"
  by (simp add: net_ParseIP_def parse_ip_def is_ipv6_literal_def)

lemma show_base_digit: "n < 10 \<Longrightarrow> show_base 10 n = [''0123456789abcdef'' ! n]"
  by (subst show_base.simps) simp
lemma show_base_hex_digit: "n < 16 \<Longrightarrow> show_base 16 n = [''0123456789abcdef'' ! n]"
  by (subst show_base.simps) simp

lemma not_ipv4_loopback6: "\<not> is_ipv4_literal ''::1''" by (simp add: is_ipv4_literal_def)
lemma is_ipv4_1234: "is_ipv4_literal ''1.2.3.4''" by (simp add: is_ipv4_literal_def octet_def decimal_def)
lemma ipv4_groups_1234: "ipv4_groups ''1.2.3.4'' = [258, 772]" by (simp add: ipv4_groups_def decimal_def)
lemma IP_String_1234: "IP_String [0, 0, 0, 0, 0, 65535, 258, 772] = ''1.2.3.4''"
  by (simp add: IP_String_def show_base_digit)
lemma net_ParseIP_1234 [simp]: "net_ParseIP ''1.2.3.4'' = Some ''1.2.3.4''"
  by (simp add: net_ParseIP_def parse_ip_def is_ipv4_1234 ipv4_groups_1234 IP_String_1234)

lemma replicate_small:
  "replicate 5 x = [x, x, x, x, x]" "replicate 7 x = [x, x, x, x, x, x, x]"
  by (simp_all add: eval_nat_numeral)

lemma parse_ipv6_loopback6: "parse_ipv6 ''::1'' = Some [0, 0, 0, 0, 0, 0, 0, 1]"
  by (simp add: parse_ipv6_def hex_part6_def part6_def hex_group_def hexadecimal_def hex_val_def
      replicate_small)
lemma IP_String_loopback6: "IP_String [0, 0, 0, 0, 0, 0, 0, 1] = ''::1''"
  by (simp add: IP_String_def string6_def longest_zero_run_def zero_run_def show_base_hex_digit
      upt_rec)
lemma net_ParseIP_loopback6 [simp]: "net_ParseIP ''::1'' = Some ''::1''"
proof -
  have "parse_ip ''::1'' = Some [0, 0, 0, 0, 0, 0, 0, 1]"
    by (simp only: parse_ip_def not_ipv4_loopback6 if_False parse_ipv6_loopback6)
  then show ?thesis by (simp only: net_ParseIP_def option.map IP_String_loopback6)
qed
lemma is_ipv6_loopback6: "is_ipv6_literal ''::1''"
  by (simp add: is_ipv6_literal_def parse_ipv6_loopback6)

lemma net_ParseIP_short: "net_ParseIP ''1.2.3'' = None"
  by (simp add: net_ParseIP_def parse_ip_def is_ipv4_literal_def parse_ipv6_def part6_def
      hex_group_def)

lemma sdiv_smod_examples [simp]:
  "(1000000000::int) sdiv 1000000000 = 1" "(1000000000::int) smod 1000000000 = 0"
  "(4000000000::int) sdiv 1000000000 = 4" "(4000000000::int) smod 1000000000 = 0"
  "(100000::int) sdiv 1000000000 = 0" "(100000::int) smod 1000000000 = 100000"
  by (simp_all add: signed_divide_int_def signed_modulo_int_def)

lemma rtt_ms_1s [simp]: "rtt_ms \<lparr>Hops = h, IP = ip, RTT = 1000000000\<rparr> = 1000"
  by (simp add: rtt_ms_def Seconds_def Second_def)

lemma rtt_ms_4s [simp]: "rtt_ms \<lparr>Hops = h, IP = ip, RTT = 4000000000\<rparr> = 4000"
  by (simp add: rtt_ms_def Seconds_def Second_def)

lemma upto_small [simp]:
  "[1..0] = []" "[1..1] = [1]" "[1..2] = [1, 2]" "[2..2] = [2]"
  by (simp_all add: upto.simps)

lemma discover_lossy:
  "trace_first (op_sample 30 3 5 (5 * Second))
      [1 \<mapsto> \<lparr>Hops = 1, IP = ''1.2.3.4'', RTT = 1000000000\<rparr>] ''1.2.3.4'' ''1.2.3.4'' 1 0 []
   = [(1, \<lparr>MTRHup.Count = 1, Host = ''1.2.3.4'', Loss = 0, LossPoint = 0, Snt = 1,
          Last = 1000, Avg = 1000, Best = 1000, Wrst = 1000\<rparr>)]"
  by (subst trace_first.simps) (simp add: op_sample_def Let_def)

lemma step1_lossy:
  "retry_ping (op_sample 30 3 5 (5 * Second)) ''1.2.3.4'' (ping_env env_lossy 1 1) hc
     (\<lparr>MTRHup.Count = 1, Host = ''1.2.3.4'', Loss = 0, LossPoint = 0, Snt = 1,
          Last = 1000, Avg = 1000, Best = 1000, Wrst = 1000\<rparr>, locals_init (op_sample 30 3 5 (5 * Second)))
   = (\<lparr>MTRHup.Count = 1, Host = ''1.2.3.4'', Loss = 0, LossPoint = 1, Snt = 2,
          Last = 1000, Avg = 1000, Best = 1000, Wrst = 1000\<rparr>, locals_init (op_sample 30 3 5 (5 * Second)))"
  by (simp add: retry_ping_def env_lossy_def locals_init_def op_sample_def Let_def)

lemma step2_lossy:
  "retry_ping (op_sample 30 3 5 (5 * Second)) ''1.2.3.4'' (ping_env env_lossy 1 2) hc
     (\<lparr>MTRHup.Count = 1, Host = ''1.2.3.4'', Loss = 0, LossPoint = 1, Snt = 2,
          Last = 1000, Avg = 1000, Best = 1000, Wrst = 1000\<rparr>, locals_init (op_sample 30 3 5 (5 * Second)))
   = (\<lparr>MTRHup.Count = 1, Host = ''1.2.3.4'', Loss = 0, LossPoint = 1, Snt = 3,
          Last = 4000, Avg = 2000, Best = 1000, Wrst = 4000\<rparr>, locals_init (op_sample 30 3 5 (5 * Second)))"
  by (simp add: retry_ping_def env_lossy_def locals_init_def op_sample_def Let_def
      record_rtt_def)

lemma hop_lossy:
  "hop_retry env_lossy (op_sample 30 3 5 (5 * Second)) ''1.2.3.4'' t 1
     \<lparr>MTRHup.Count = 1, Host = ''1.2.3.4'', Loss = 0, LossPoint = 0, Snt = 1,
          Last = 1000, Avg = 1000, Best = 1000, Wrst = 1000\<rparr>
   = \<lparr>MTRHup.Count = 1, Host = ''1.2.3.4'', Loss = fl64 (1 / 3), LossPoint = 1, Snt = 3,
          Last = 4000, Avg = 2000, Best = 1000, Wrst = 4000\<rparr>"
proof -
  have pc: "PingCount (op_sample 30 3 5 (5 * Second)) - 1 = 2" by (simp add: op_sample_def)
  show ?thesis
    by (simp add: hop_retry_def pc step1_lossy step2_lossy final_loss_def)
qed

lemma eval_lossy:
  "run Sequential env_lossy (op_sample 30 3 5 (5 * Second)) ''1.2.3.4'' =
     Some (\<lparr>Time = 0, Src = ''0.0.0.0'', Dst = ''1.2.3.4'', Count = 3,
             Hups = [\<lparr>MTRHup.Count = 1, Host = ''1.2.3.4'', Loss = fl64 (1 / 3), LossPoint = 1, Snt = 3,
                      Last = 4000, Avg = 2000, Best = 1000, Wrst = 4000\<rparr>]\<rparr>, None)"
proof -
  have e: "ParseIP env_lossy ''1.2.3.4'' = Some ''1.2.3.4''"
    "Trace_env env_lossy ''1.2.3.4'' = ([\<lparr>Hops = 1, IP = ''1.2.3.4'', RTT = 1000000000\<rparr>], None)"
    "now env_lossy = 0"
    by (simp_all add: env_lossy_def)
  have o: "Addr (Tracer (op_sample 30 3 5 (5 * Second))) = ''0.0.0.0''"
    "PingCount (op_sample 30 3 5 (5 * Second)) = 3"
    by (simp_all add: op_sample_def)
  show ?thesis
    by (simp add: run_def RunMTR_def run_with_def e o on_reply_def discover_lossy hop_lossy
        Let_def)
qed

lemma discover_silent:
  "dst \<noteq> ''???'' \<Longrightarrow>
   trace_first (op_sample 30 c 1 tmo) Map.empty dst dstIP 1 0 []
   = [(1, \<lparr>MTRHup.Count = 1, Host = ''???'', Loss = 1, LossPoint = 1, Snt = 1,
          Last = 0, Avg = 0, Best = 0, Wrst = 0\<rparr>)]"
  by (subst trace_first.simps) (simp add: op_sample_def Let_def)

lemma env_silent_fields [simp]:
  "ParseIP env_silent = net_ParseIP"
  "Trace_env env_silent ip = ([], None)"
  "ping_env env_silent i j = (\<lambda>ip ttl timeout. (None, None))"
  "now env_silent = 0"
  by (simp_all add: env_silent_def)

lemma env_comeback_fields [simp]:
  "ParseIP env_comeback = net_ParseIP"
  "Trace_env env_comeback ip = ([], None)"
  "now env_comeback = 0"
  by (simp_all add: env_comeback_def)

lemma op_sample_fields [simp]:
  "Addr (Tracer (op_sample m c u tmo)) = ''0.0.0.0''"
  "MaxHops (Tracer (op_sample m c u tmo)) = m"
  "Timeout (Tracer (op_sample m c u tmo)) = tmo"
  "PingCount (op_sample m c u tmo) = c"
  "MaxUnknowns (op_sample m c u tmo) = u"
  by (simp_all add: op_sample_def)

lemma eval_silent_no_retry:
  "run NoRetry env_silent (op_sample 30 3 1 Second) ''1.2.3.4'' =
     Some (\<lparr>Time = 0, Src = ''0.0.0.0'', Dst = ''1.2.3.4'', Count = 3,
             Hups = [\<lparr>MTRHup.Count = 1, Host = ''???'', Loss = 1, LossPoint = 1, Snt = 3,
                      Last = 0, Avg = 0, Best = 0, Wrst = 0\<rparr>]\<rparr>, None)"
proof -
  have "hop_no_retry env_silent (op_sample 30 3 1 Second) ''1.2.3.4'' t 1
     \<lparr>MTRHup.Count = 1, Host = ''???'', Loss = 1, LossPoint = 1, Snt = 1,
          Last = 0, Avg = 0, Best = 0, Wrst = 0\<rparr>
     = \<lparr>MTRHup.Count = 1, Host = ''???'', Loss = 1, LossPoint = 1, Snt = 3,
          Last = 0, Avg = 0, Best = 0, Wrst = 0\<rparr>" for t
    by (simp add: hop_no_retry_unknown)
  then show ?thesis
    by (simp add: run_def RunMTRWithNoRetryPing_def run_with_def discover_silent Let_def)
qed

lemma eval_silent_loopback6:
  "run Sequential env_silent (op_sample 30 1 1 Second) ''::1'' =
     Some (\<lparr>Time = 0, Src = ''0.0.0.0'', Dst = ''::1'', Count = 1,
             Hups = [\<lparr>MTRHup.Count = 1, Host = ''???'', Loss = 1, LossPoint = 1, Snt = 1,
                      Last = 0, Avg = 0, Best = 0, Wrst = 0\<rparr>]\<rparr>, None)"
  by (simp add: run_def RunMTR_def run_with_def discover_silent Let_def hop_retry_def
      final_loss_def)

lemma step_comeback:
  "retry_ping (op_sample 30 2 1 (2 * Second)) ''1.2.3.4'' (ping_env env_comeback 1 1)
     (\<lambda>h. [h])
     (\<lparr>MTRHup.Count = 1, Host = ''???'', Loss = 1, LossPoint = 1, Snt = 1,
          Last = 0, Avg = 0, Best = 0, Wrst = 0\<rparr>, locals_init (op_sample 30 2 1 (2 * Second)))
   = (\<lparr>MTRHup.Count = 1, Host = ''10.0.0.1'', Loss = 1, LossPoint = 1, Snt = 2,
          Last = 1000, Avg = 500, Best = 0, Wrst = 1000\<rparr>,
      \<lparr>to = 2 * Second, retryTime = 1, workTimeout = 2 * Second, comeback = True\<rparr>)"
  by (simp add: retry_ping_def env_comeback_def locals_init_def Let_def
      record_rtt_def)

lemma eval_comeback:
  "run Sequential env_comeback (op_sample 30 2 1 (2 * Second)) ''1.2.3.4'' =
     Some (\<lparr>Time = 0, Src = ''0.0.0.0'', Dst = ''1.2.3.4'', Count = 2,
             Hups = [\<lparr>MTRHup.Count = 1, Host = ''10.0.0.1'', Loss = 1 / 2, LossPoint = 1, Snt = 2,
                      Last = 1000, Avg = 500, Best = 0, Wrst = 1000\<rparr>]\<rparr>, None)"
  by (simp add: run_def RunMTR_def run_with_def discover_silent Let_def hop_retry_def
      step_comeback final_loss_def)

lemma discover_gap:
  "trace_first (op_sample 30 c 1 tmo)
      [1 \<mapsto> \<lparr>Hops = 1, IP = ''10.0.0.1'', RTT = 1000000000\<rparr>] ''1.2.3.4'' ''1.2.3.4'' 1 0 []
   = [(1, \<lparr>MTRHup.Count = 1, Host = ''10.0.0.1'', Loss = 0, LossPoint = 0, Snt = 1,
          Last = 1000, Avg = 1000, Best = 1000, Wrst = 1000\<rparr>),
      (2, \<lparr>MTRHup.Count = 2, Host = ''???'', Loss = 1, LossPoint = 1, Snt = 1,
          Last = 0, Avg = 0, Best = 0, Wrst = 0\<rparr>)]"
  by (subst trace_first.simps, simp add: Let_def, subst trace_first.simps)
     (simp add: Let_def)

lemma env_gap_fields [simp]:
  "ParseIP env_gap = net_ParseIP"
  "Trace_env env_gap ip = ([\<lparr>Hops = 1, IP = ''10.0.0.1'', RTT = 1000000000\<rparr>], None)"
  "now env_gap = 0"
  by (simp_all add: env_gap_def)

lemma hop1_gap:
  "hop_retry env_gap (op_sample 30 3 1 Second) ''1.2.3.4'' t 1
     \<lparr>MTRHup.Count = 1, Host = ''10.0.0.1'', Loss = 0, LossPoint = 0, Snt = 1,
          Last = 1000, Avg = 1000, Best = 1000, Wrst = 1000\<rparr>
   = \<lparr>MTRHup.Count = 1, Host = ''10.0.0.1'', Loss = fl64 (2 / 3), LossPoint = 2, Snt = 3,
          Last = 1000, Avg = 1000, Best = 1000, Wrst = 1000\<rparr>"
  by (simp add: hop_retry_def retry_ping_def env_gap_def locals_init_def Let_def final_loss_def)

lemma hop2_gap:
  "hop_retry env_gap (op_sample 30 3 1 Second) ''1.2.3.4''
     [(1, \<lparr>MTRHup.Count = 1, Host = ''10.0.0.1'', Loss = fl64 (2 / 3), LossPoint = 2, Snt = 3,
          Last = 1000, Avg = 1000, Best = 1000, Wrst = 1000\<rparr>),
      (2, \<lparr>MTRHup.Count = 2, Host = ''???'', Loss = 1, LossPoint = 1, Snt = 1,
          Last = 0, Avg = 0, Best = 0, Wrst = 0\<rparr>)] 2
     \<lparr>MTRHup.Count = 2, Host = ''???'', Loss = 1, LossPoint = 1, Snt = 1,
          Last = 0, Avg = 0, Best = 0, Wrst = 0\<rparr>
   = \<lparr>MTRHup.Count = 2, Host = ''???'', Loss = 1, LossPoint = 3, Snt = 3,
          Last = 0, Avg = 0, Best = 0, Wrst = 0\<rparr>"
  by (simp add: hop_retry_def retry_ping_def env_gap_def locals_init_def Let_def final_loss_def
      Second_def)

lemma eval_gap:
  "run Sequential env_gap (op_sample 30 3 1 Second) ''1.2.3.4'' =
     Some (\<lparr>Time = 0, Src = ''0.0.0.0'', Dst = ''1.2.3.4'', Count = 3,
             Hups = [\<lparr>MTRHup.Count = 1, Host = ''10.0.0.1'', Loss = fl64 (2 / 3), LossPoint = 2, Snt = 3,
                      Last = 1000, Avg = 1000, Best = 1000, Wrst = 1000\<rparr>,
                     \<lparr>MTRHup.Count = 2, Host = ''???'', Loss = 1, LossPoint = 3, Snt = 3,
                      Last = 0, Avg = 0, Best = 0, Wrst = 0\<rparr>]\<rparr>, None)"
  by (simp add: run_def RunMTR_def run_with_def on_reply_def discover_gap Let_def
      hop1_gap hop2_gap)

subsection \<open>Properties of the report on examples, and unknown hops in the report\<close>

theorem report_hops_dense_witness:
  "run Sequential env_gap (op_sample 30 3 1 Second) ''1.2.3.4'' =
     Some (\<lparr>Time = 0, Src = ''0.0.0.0'', Dst = ''1.2.3.4'', Count = 3,
             Hups = [\<lparr>MTRHup.Count = 1, Host = ''10.0.0.1'', Loss = fl64 (2 / 3), LossPoint = 2, Snt = 3,
                      Last = 1000, Avg = 1000, Best = 1000, Wrst = 1000\<rparr>,
                     \<lparr>MTRHup.Count = 2, Host = ''???'', Loss = 1, LossPoint = 3, Snt = 3,
                      Last = 0, Avg = 0, Best = 0, Wrst = 0\<rparr>]\<rparr>, None)
   \<and> (0::int) \<le> MaxHops (Tracer (op_sample 30 3 1 Second))
   \<and> map MTRHup.Count
        [\<lparr>MTRHup.Count = 1, Host = ''10.0.0.1'', Loss = fl64 (2 / 3), LossPoint = 2, Snt = 3,
          Last = 1000, Avg = 1000, Best = 1000, Wrst = 1000\<rparr>,
         \<lparr>MTRHup.Count = 2, Host = ''???'', Loss = 1, LossPoint = 3, Snt = 3,
          Last = 0, Avg = 0, Best = 0, Wrst = 0\<rparr>] = [1..2]
   \<and> (2::int) \<le> MaxHops (Tracer (op_sample 30 3 1 Second))"
  using report_hops_dense[OF eval_gap] eval_gap by simp

theorem report_Snt_is_ping_count_witness:
  "run Sequential env_lossy (op_sample 30 3 5 (5 * Second)) ''1.2.3.4'' =
     Some (\<lparr>Time = 0, Src = ''0.0.0.0'', Dst = ''1.2.3.4'', Count = 3,
             Hups = [\<lparr>MTRHup.Count = 1, Host = ''1.2.3.4'', Loss = fl64 (1 / 3), LossPoint = 1, Snt = 3,
                      Last = 4000, Avg = 2000, Best = 1000, Wrst = 4000\<rparr>]\<rparr>, None)
   \<and> 1 \<le> PingCount (op_sample 30 3 5 (5 * Second))
   \<and> Snt \<lparr>MTRHup.Count = 1, Host = ''1.2.3.4'', Loss = fl64 (1 / 3), LossPoint = 1, Snt = 3,
            Last = 4000, Avg = 2000, Best = 1000, Wrst = 4000\<rparr>
       = real_of_int (PingCount (op_sample 30 3 5 (5 * Second)))"
  using report_Snt_is_ping_count[OF eval_lossy,
      of "\<lparr>MTRHup.Count = 1, Host = ''1.2.3.4'', Loss = fl64 (1 / 3), LossPoint = 1, Snt = 3,
            Last = 4000, Avg = 2000, Best = 1000, Wrst = 4000\<rparr>"] eval_lossy
  by simp

text \<open>
  C2. In every operation, a hop of the returned report whose host is \<open>???\<close> has
  \<open>Loss = 1\<close> and \<open>Last = Avg = Best = Wrst = 0\<close>, whatever its counters \<open>Snt\<close> and
  \<open>LossPoint\<close> have become (\<^verbatim>\<open>IP.String()\<close> never gives the text \<open>???\<close>).
\<close>

theorem unknown_hop_keeps_full_loss:
  assumes "run v e op dst = Some (rep, err)"
    and "\<forall>ip. \<forall>r\<in>set (fst (Trace_env e ip)). IP r \<noteq> ''???''"
    and "h \<in> set (Hups rep)" and "Host h = ''???''"
  shows "Loss h = 1 \<and> Last h = 0 \<and> Avg h = 0 \<and> Best h = 0 \<and> Wrst h = 0"
proof (cases err)
  case (Some x)
  with assms(1,3) run_error_no_hops[of v e op dst rep x] show ?thesis by simp
next
  case None
  from run_hop_origin[OF assms(1)[unfolded None] assms(3)] obtain dstIP replies k t where
    t: "Trace_env e dstIP = (replies, None)"
    and h: "h = hop_body v e op dstIP t k (hop_at (fold on_reply replies Map.empty) k)"
    by blast
  from assms(2) t have "\<forall>r\<in>set replies. IP r \<noteq> ''???''"
    by (metis fst_conv)
  then have "unknown_zero (hop_at (fold on_reply replies Map.empty) k)"
    by (rule hop_at_unknown_zero)
  then have "unknown_zero h"
    unfolding h by (rule hop_body_unknown_zero)
  with assms(4) show ?thesis by (simp add: unknown_zero_def)
qed

theorem unknown_hop_keeps_full_loss_witness:
  "run Sequential env_gap (op_sample 30 3 1 Second) ''1.2.3.4'' =
     Some (\<lparr>Time = 0, Src = ''0.0.0.0'', Dst = ''1.2.3.4'', Count = 3,
             Hups = [\<lparr>MTRHup.Count = 1, Host = ''10.0.0.1'', Loss = fl64 (2 / 3), LossPoint = 2, Snt = 3,
                      Last = 1000, Avg = 1000, Best = 1000, Wrst = 1000\<rparr>,
                     \<lparr>MTRHup.Count = 2, Host = ''???'', Loss = 1, LossPoint = 3, Snt = 3,
                      Last = 0, Avg = 0, Best = 0, Wrst = 0\<rparr>]\<rparr>, None)
   \<and> IP \<lparr>Hops = 1, IP = ''10.0.0.1'', RTT = 1000000000\<rparr> \<noteq> ''???''
   \<and> Loss \<lparr>MTRHup.Count = 2, Host = ''???'', Loss = 1, LossPoint = 3, Snt = 3,
            Last = 0, Avg = 0, Best = 0, Wrst = 0\<rparr> = 1"
  using unknown_hop_keeps_full_loss[OF eval_gap,
      of "\<lparr>MTRHup.Count = 2, Host = ''???'', Loss = 1, LossPoint = 3, Snt = 3,
            Last = 0, Avg = 0, Best = 0, Wrst = 0\<rparr>"] eval_gap
  by simp

text \<open>
  C3. \<open>Avg\<close> is to be the arithmetic mean of the round-trip times of the hop's
  successful probes. The code does otherwise when a probe is lost: here hop 1 is
  answered after 1000 ms at discovery, its next probe is lost, and the last one is
  answered after 4000 ms; the report has \<open>Avg = 2000\<close>, and the mean of the two
  successful probes is 2500.
\<close>

theorem lossy_hop_Avg_differs_from_mean:
  "run Sequential env_lossy (op_sample 30 3 5 (5 * Second)) ''1.2.3.4'' =
     Some (\<lparr>Time = 0, Src = ''0.0.0.0'', Dst = ''1.2.3.4'', Count = 3,
             Hups = [\<lparr>MTRHup.Count = 1, Host = ''1.2.3.4'', Loss = fl64 (1 / 3), LossPoint = 1, Snt = 3,
                      Last = 4000, Avg = 2000, Best = 1000, Wrst = 4000\<rparr>]\<rparr>, None)
   \<and> (2000::real) \<noteq> (1000 + 4000) / 2"
  using eval_lossy by simp

text \<open>
  C4. \<open>Best\<close> is to be the least and \<open>Wrst\<close> the greatest round-trip time of the
  hop's successful probes. The code does otherwise for a hop recovered by a
  retry: here hop 1 is unknown after discovery and its first retry is answered
  after 1000 ms, the only successful probe; the report has \<open>Best = 0\<close>.
\<close>

theorem comeback_hop_Best_stays_zero:
  "run Sequential env_comeback (op_sample 30 2 1 (2 * Second)) ''1.2.3.4'' =
     Some (\<lparr>Time = 0, Src = ''0.0.0.0'', Dst = ''1.2.3.4'', Count = 2,
             Hups = [\<lparr>MTRHup.Count = 1, Host = ''10.0.0.1'', Loss = 1 / 2, LossPoint = 1, Snt = 2,
                      Last = 1000, Avg = 500, Best = 0, Wrst = 1000\<rparr>]\<rparr>, None)
   \<and> (0::real) \<noteq> Min {1000}"
  using eval_comeback by simp

text \<open>
  C5, as the claim states it, fails: in \<^verbatim>\<open>RunMTRWithNoRetryPing\<close> an unknown hop ends
  with \<open>lost = ping_count\<close>. Here nothing answers and \<open>ping_count = 3\<close>; hop 1 ends
  with \<open>Snt = 3\<close> and \<open>LossPoint = 1\<close>.
\<close>

theorem no_retry_unknown_hop_lost_counterexample:
  "run NoRetry env_silent (op_sample 30 3 1 Second) ''1.2.3.4'' =
     Some (\<lparr>Time = 0, Src = ''0.0.0.0'', Dst = ''1.2.3.4'', Count = 3,
             Hups = [\<lparr>MTRHup.Count = 1, Host = ''???'', Loss = 1, LossPoint = 1, Snt = 3,
                      Last = 0, Avg = 0, Best = 0, Wrst = 0\<rparr>]\<rparr>, None)
   \<and> (1::int) \<noteq> PingCount (op_sample 30 3 1 Second)"
  using eval_silent_no_retry by simp

text \<open>
  C5, amended. In \<^verbatim>\<open>RunMTRWithNoRetryPing\<close>, with \<open>ping_count \<ge> 1\<close>, a hop of the
  report whose host is \<open>???\<close> has \<open>Snt = ping_count\<close> and \<open>LossPoint = 1\<close>: it is the
  unknown record of discovery with \<open>Snt\<close> raised to \<open>ping_count\<close>, whatever the probes
  would have returned.
\<close>

theorem no_retry_unknown_hop_counters:
  assumes "run NoRetry e op dst = Some (rep, None)"
    and "\<forall>ip. \<forall>r\<in>set (fst (Trace_env e ip)). IP r \<noteq> ''???''"
    and "1 \<le> PingCount op"
    and "h \<in> set (Hups rep)" and "Host h = ''???''"
  shows "Snt h = real_of_int (PingCount op) \<and> LossPoint h = 1 \<and>
         h = (unknown_hop (MTRHup.Count h))\<lparr>Snt := real_of_int (PingCount op)\<rparr>"
proof -
  from run_hop_origin[OF assms(1,4)] obtain dstIP replies k t where
    t: "Trace_env e dstIP = (replies, None)"
    and h: "h = hop_no_retry e op dstIP t k (hop_at (fold on_reply replies Map.empty) k)"
    by (auto simp: hop_body_def)
  from assms(2) t have ok: "\<forall>r\<in>set replies. IP r \<noteq> ''???''"
    by (metis fst_conv)
  from h assms(5) have "Host (hop_at (fold on_reply replies Map.empty) k) = ''???''"
    by (simp add: hop_no_retry_Host)
  with ok have u: "hop_at (fold on_reply replies Map.empty) k = unknown_hop k"
    by (rule hop_at_unknown)
  have "Host (unknown_hop k) = ''???''" by (simp add: unknown_hop_def)
  then have "h = (unknown_hop k)\<lparr>Snt := Snt (unknown_hop k) + real_of_int (PingCount op - 1)\<rparr>"
    unfolding h u using assms(3) by (rule hop_no_retry_unknown)
  then show ?thesis by (simp add: unknown_hop_def)
qed

theorem no_retry_unknown_hop_counters_witness:
  "run NoRetry env_silent (op_sample 30 3 1 Second) ''1.2.3.4'' =
     Some (\<lparr>Time = 0, Src = ''0.0.0.0'', Dst = ''1.2.3.4'', Count = 3,
             Hups = [\<lparr>MTRHup.Count = 1, Host = ''???'', Loss = 1, LossPoint = 1, Snt = 3,
                      Last = 0, Avg = 0, Best = 0, Wrst = 0\<rparr>]\<rparr>, None)
   \<and> 1 \<le> PingCount (op_sample 30 3 1 Second)
   \<and> \<lparr>MTRHup.Count = 1, Host = ''???'', Loss = 1, LossPoint = 1, Snt = 3,
        Last = 0, Avg = 0, Best = 0, Wrst = 0\<rparr>
       = (unknown_hop 1)\<lparr>Snt := real_of_int (PingCount (op_sample 30 3 1 Second))\<rparr>"
  using no_retry_unknown_hop_counters[OF eval_silent_no_retry,
      of "\<lparr>MTRHup.Count = 1, Host = ''???'', Loss = 1, LossPoint = 1, Snt = 3,
            Last = 0, Avg = 0, Best = 0, Wrst = 0\<rparr>"] eval_silent_no_retry
  by simp

subsection \<open>The retry of an unknown hop\<close>

lemma scan_other_hop:
  assumes "distinct (map fst hups)" and "Host h \<noteq> ip"
  shows "list_ex (\<lambda>v. Host v = ip) (map snd (AList.update i h hups))
         \<longleftrightarrow> (\<exists>(k, v)\<in>set hups. k \<noteq> i \<and> Host v = ip)"
  using assms(2) by (auto simp: list_ex_iff update_distinct_set[OF assms(1)])

text \<open>
  C6. In \<^verbatim>\<open>RunMTR\<close>, an unknown hop \<open>i\<close> that may still retry (\<open>retryTime < 4\<close>) probes
  the destination at its TTL with timeout \<open>to\<close>. When the probe is answered and the
  responder's IP is the host of another hop of the table, the hop does not adopt
  it: the host stays \<open>???\<close>, \<open>comeback\<close> is unchanged, \<open>to\<close> grows by 1 s if it is below
  5 s, \<open>LossPoint\<close> and \<open>retryTime\<close> grow by 1. When the IP is the host of no hop,
  the hop enters comeback mode: \<open>comeback\<close> is set, \<open>workTimeout\<close> is \<open>to\<close>, the host is
  the responder's IP, and the statistics are updated from the reply, the new
  \<open>Avg\<close> rounded as \<^verbatim>\<open>float64\<close> rounds it; \<open>retryTime\<close> grows by 1. (\<open>Snt\<close> has grown by 1
  at the top of the iteration.)
\<close>

theorem retry_reply_duplicate_or_comeback:
  assumes "Host hup = ''???''" and "retryTime s < 4"
    and "ping dstIP (MTRHup.Count hup) (to s) = (Some rp, None)"
    and "distinct (map fst (hups :: hups))" and "IP rp \<noteq> ''???''"
  shows "retry_ping op dstIP ping (\<lambda>h. map snd (AList.update i h hups)) (hup, s) =
     (if \<exists>(k, v)\<in>set hups. k \<noteq> i \<and> Host v = IP rp
      then (hup\<lparr>Snt := Snt hup + 1, LossPoint := LossPoint hup + 1\<rparr>,
            s\<lparr>to := (if to s < Second * 5 then to s + Second else to s),
              retryTime := retryTime s + 1\<rparr>)
      else (hup\<lparr>Host := IP rp, Snt := Snt hup + 1, Last := rtt_ms rp,
                Avg := fl64 (fl64 (fl64 (Avg hup * (Snt hup + 1 - 1)) + rtt_ms rp) / (Snt hup + 1)),
                Best := (if Best hup > rtt_ms rp then rtt_ms rp else Best hup),
                Wrst := (if Wrst hup < rtt_ms rp then rtt_ms rp else Wrst hup)\<rparr>,
            s\<lparr>comeback := True, workTimeout := to s, retryTime := retryTime s + 1\<rparr>))"
proof -
  have "Host (hup\<lparr>Snt := Snt hup + 1\<rparr>) \<noteq> IP rp" using assms(1,5) by simp
  from scan_other_hop[OF assms(4) this, of i]
  show ?thesis
    using assms(1,2,3)
    by (simp add: retry_ping_def Let_def record_rtt_def)
qed

theorem retry_reply_duplicate_or_comeback_witness:
  "retry_ping (op_sample 30 3 1 Second) ''1.2.3.4''
      (\<lambda>ip ttl timeout. (Some \<lparr>Hops = 2, IP = ''10.0.0.1'', RTT = 1000000000\<rparr>, None))
      (\<lambda>h. map snd (AList.update 2 h
         [(1::int, known_hop 1 \<lparr>Hops = 1, IP = ''10.0.0.1'', RTT = 1000000000\<rparr>), (2, unknown_hop 2)]))
      (unknown_hop 2, locals_init (op_sample 30 3 1 Second))
    = (\<lparr>MTRHup.Count = 2, Host = ''???'', Loss = 1, LossPoint = 2, Snt = 2,
         Last = 0, Avg = 0, Best = 0, Wrst = 0\<rparr>,
       \<lparr>to = 2000000000, retryTime = 1, workTimeout = 0, comeback = False\<rparr>)
   \<and> retry_ping (op_sample 30 3 1 Second) ''1.2.3.4''
      (\<lambda>ip ttl timeout. (Some \<lparr>Hops = 2, IP = ''10.0.0.2'', RTT = 1000000000\<rparr>, None))
      (\<lambda>h. map snd (AList.update 2 h
         [(1::int, known_hop 1 \<lparr>Hops = 1, IP = ''10.0.0.1'', RTT = 1000000000\<rparr>), (2, unknown_hop 2)]))
      (unknown_hop 2, locals_init (op_sample 30 3 1 Second))
    = (\<lparr>MTRHup.Count = 2, Host = ''10.0.0.2'', Loss = 1, LossPoint = 1, Snt = 2,
         Last = 1000, Avg = 500, Best = 0, Wrst = 1000\<rparr>,
       \<lparr>to = 1000000000, retryTime = 1, workTimeout = 1000000000, comeback = True\<rparr>)"
proof -
  let ?hups = "[(1::int, known_hop 1 \<lparr>Hops = 1, IP = ''10.0.0.1'', RTT = 1000000000\<rparr>),
                (2, unknown_hop 2)]"
  let ?op = "op_sample 30 3 1 Second"
  let ?r1 = "\<lparr>Hops = 2, IP = ''10.0.0.1'', RTT = 1000000000\<rparr>"
  let ?r2 = "\<lparr>Hops = 2, IP = ''10.0.0.2'', RTT = 1000000000\<rparr>"
  show ?thesis
    using
      retry_reply_duplicate_or_comeback[where hup = "unknown_hop 2" and s = "locals_init ?op"
        and ping = "\<lambda>ip ttl timeout. (Some ?r1, None)" and dstIP = "''1.2.3.4''" and rp = ?r1
        and hups = ?hups and op = ?op and i = 2]
      retry_reply_duplicate_or_comeback[where hup = "unknown_hop 2" and s = "locals_init ?op"
        and ping = "\<lambda>ip ttl timeout. (Some ?r2, None)" and dstIP = "''1.2.3.4''" and rp = ?r2
        and hups = ?hups and op = ?op and i = 2]
    by (simp add: known_hop_def unknown_hop_def locals_init_def Second_def)
qed

subsection \<open>The guard on the destination\<close>

text \<open>
  C9, as the claim states it, fails: a run fails with "Unknown dest IP" exactly
  when \<open>dst\<close> is not a valid IPv4 literal. \<^verbatim>\<open>net.ParseIP\<close> accepts the IPv6 literal
  \<^verbatim>\<open>::1\<close>, which is no IPv4 literal, and the run goes on to the trace.
\<close>

theorem ipv6_literal_passes_guard_counterexample:
  "\<not> is_ipv4_literal ''::1''
   \<and> ParseIP env_silent = net_ParseIP
   \<and> run Sequential env_silent (op_sample 30 1 1 Second) ''::1'' =
     Some (\<lparr>Time = 0, Src = ''0.0.0.0'', Dst = ''::1'', Count = 1,
             Hups = [\<lparr>MTRHup.Count = 1, Host = ''???'', Loss = 1, LossPoint = 1, Snt = 1,
                      Last = 0, Avg = 0, Best = 0, Wrst = 0\<rparr>]\<rparr>, None)"
  using eval_silent_loopback6 not_ipv4_loopback6 by simp

text \<open>
  C9, amended. With \<^verbatim>\<open>net.ParseIP\<close> as the library has it, every run operation fails
  with "Unknown dest IP", returning the empty report whatever the transport would
  do, exactly when \<open>dst\<close> is neither a valid IPv4 literal nor a valid IPv6 literal.
\<close>

theorem unknown_dest_iff_no_ip_literal:
  assumes "ParseIP e = net_ParseIP"
  shows
    "(run v e op dst =
        Some (\<lparr>Time = 0, Src = [], Dst = [], Count = 0, Hups = []\<rparr>, Some UnknownDestIP)
      \<longleftrightarrow> \<not> is_ipv4_literal dst \<and> \<not> is_ipv6_literal dst)
   \<and> ((\<exists>rep. run v e op dst = Some (rep, Some UnknownDestIP))
      \<longleftrightarrow> \<not> is_ipv4_literal dst \<and> \<not> is_ipv6_literal dst)"
proof (cases "ParseIP e dst")
  case None
  then have "\<not> is_ipv4_literal dst \<and> \<not> is_ipv6_literal dst"
    using assms net_ParseIP_None[of dst] by simp
  with None show ?thesis by (simp add: run_hop_body run_with_def)
next
  case (Some dstIP)
  then have lit: "\<not> (\<not> is_ipv4_literal dst \<and> \<not> is_ipv6_literal dst)"
    using assms net_ParseIP_None[of dst] by simp
  obtain replies err where t: "Trace_env e dstIP = (replies, err)" by (cases "Trace_env e dstIP")
  have "run v e op dst \<noteq> Some (rep, Some UnknownDestIP)" for rep
    using Some t
    by (auto simp: run_hop_body run_with_def Let_def split: option.splits)
  with lit show ?thesis by simp
qed

theorem unknown_dest_iff_no_ip_literal_witness:
  "ParseIP env_silent = net_ParseIP
   \<and> \<not> is_ipv4_literal ''1.2.3'' \<and> \<not> is_ipv6_literal ''1.2.3''
   \<and> run NoRetry env_silent (op_sample 30 3 1 Second) ''1.2.3''
     = Some (\<lparr>Time = 0, Src = [], Dst = [], Count = 0, Hups = []\<rparr>, Some UnknownDestIP)
   \<and> is_ipv6_literal ''::1''
   \<and> run NoRetry env_silent (op_sample 30 3 1 Second) ''::1''
     \<noteq> Some (\<lparr>Time = 0, Src = [], Dst = [], Count = 0, Hups = []\<rparr>, Some UnknownDestIP)"
proof -
  have p: "ParseIP env_silent = net_ParseIP" by simp
  have n: "\<not> is_ipv4_literal ''1.2.3'' \<and> \<not> is_ipv6_literal ''1.2.3''"
    using net_ParseIP_short net_ParseIP_None[of "''1.2.3''"] by simp
  from unknown_dest_iff_no_ip_literal[OF p, of NoRetry "op_sample 30 3 1 Second" "''1.2.3''"]
    unknown_dest_iff_no_ip_literal[OF p, of NoRetry "op_sample 30 3 1 Second" "''::1''"]
    n is_ipv6_loopback6 p
  show ?thesis by simp
qed

subsection \<open>The ordering of the statistics\<close>

text \<open>
  The roundings of the example with round trips of 100 microseconds: of \<open>10\<^sup>-\<^sup>4\<close>, the
  seconds; of the seconds and of their product with 1000, which is the \<^verbatim>\<open>float64\<close>
  number 0.1; of 0.1, of 0.1 + 0.1 and of 0.2 + 0.1, a tie that goes to the even
  neighbour above; and of a third of that sum.
\<close>

lemma fl64_steady:
  "fl64 (1 / 10000) = 7378697629483821 / 73786976294838206464"
  "fl64 (7378697629483821 / 73786976294838206464) = 7378697629483821 / 73786976294838206464"
  "fl64 (922337203685477625 / 9223372036854775808) = 3602879701896397 / 36028797018963968"
  "fl64 (3602879701896397 / 36028797018963968) = 3602879701896397 / 36028797018963968"
  "fl64 (3602879701896397 / 18014398509481984) = 3602879701896397 / 18014398509481984"
  "fl64 (10808639105689191 / 36028797018963968) = 1351079888211149 / 4503599627370496"
  "fl64 (1351079888211149 / 13510798882111488) = 7205759403792795 / 72057594037927936"
  using fl64_eval[of "1 / 10000" 66]
    fl64_eval[of "7378697629483821 / 73786976294838206464" 66]
    fl64_eval[of "922337203685477625 / 9223372036854775808" 56]
    fl64_eval[of "3602879701896397 / 36028797018963968" 56]
    fl64_eval[of "3602879701896397 / 18014398509481984" 55]
    fl64_eval[of "10808639105689191 / 36028797018963968" 54]
    fl64_eval[of "1351079888211149 / 13510798882111488" 56]
  by (simp_all add: round_even_def)

lemma rtt_ms_100us:
  "rtt_ms \<lparr>Hops = h, IP = ip, RTT = 100000\<rparr> = 3602879701896397 / 36028797018963968"
  by (simp add: rtt_ms_def Seconds_def Second_def fl64_steady)

lemma discover_steady:
  "trace_first (op_sample 30 3 5 Second)
      [1 \<mapsto> \<lparr>Hops = 1, IP = ''1.2.3.4'', RTT = 100000\<rparr>] ''1.2.3.4'' ''1.2.3.4'' 1 0 []
   = [(1, \<lparr>MTRHup.Count = 1, Host = ''1.2.3.4'', Loss = 0, LossPoint = 0, Snt = 1,
          Last = 3602879701896397 / 36028797018963968,
          Avg = 3602879701896397 / 36028797018963968,
          Best = 3602879701896397 / 36028797018963968,
          Wrst = 3602879701896397 / 36028797018963968\<rparr>)]"
  by (subst trace_first.simps) (simp add: rtt_ms_100us Let_def)

lemma step1_steady:
  "retry_ping (op_sample 30 3 5 Second) ''1.2.3.4'' (ping_env env_steady 1 1) hc
     (\<lparr>MTRHup.Count = 1, Host = ''1.2.3.4'', Loss = 0, LossPoint = 0, Snt = 1,
          Last = 3602879701896397 / 36028797018963968,
          Avg = 3602879701896397 / 36028797018963968,
          Best = 3602879701896397 / 36028797018963968,
          Wrst = 3602879701896397 / 36028797018963968\<rparr>, locals_init (op_sample 30 3 5 Second))
   = (\<lparr>MTRHup.Count = 1, Host = ''1.2.3.4'', Loss = 0, LossPoint = 0, Snt = 2,
          Last = 3602879701896397 / 36028797018963968,
          Avg = 3602879701896397 / 36028797018963968,
          Best = 3602879701896397 / 36028797018963968,
          Wrst = 3602879701896397 / 36028797018963968\<rparr>, locals_init (op_sample 30 3 5 Second))"
  by (simp add: retry_ping_def env_steady_def locals_init_def Let_def record_rtt_def
      rtt_ms_100us fl64_steady)

lemma step2_steady:
  "retry_ping (op_sample 30 3 5 Second) ''1.2.3.4'' (ping_env env_steady 1 2) hc
     (\<lparr>MTRHup.Count = 1, Host = ''1.2.3.4'', Loss = 0, LossPoint = 0, Snt = 2,
          Last = 3602879701896397 / 36028797018963968,
          Avg = 3602879701896397 / 36028797018963968,
          Best = 3602879701896397 / 36028797018963968,
          Wrst = 3602879701896397 / 36028797018963968\<rparr>, locals_init (op_sample 30 3 5 Second))
   = (\<lparr>MTRHup.Count = 1, Host = ''1.2.3.4'', Loss = 0, LossPoint = 0, Snt = 3,
          Last = 3602879701896397 / 36028797018963968,
          Avg = 7205759403792795 / 72057594037927936,
          Best = 3602879701896397 / 36028797018963968,
          Wrst = 3602879701896397 / 36028797018963968\<rparr>, locals_init (op_sample 30 3 5 Second))"
  by (simp add: retry_ping_def env_steady_def locals_init_def Let_def record_rtt_def
      rtt_ms_100us fl64_steady)

lemma eval_steady:
  "run Sequential env_steady (op_sample 30 3 5 Second) ''1.2.3.4'' =
     Some (\<lparr>Time = 0, Src = ''0.0.0.0'', Dst = ''1.2.3.4'', Count = 3,
             Hups = [\<lparr>MTRHup.Count = 1, Host = ''1.2.3.4'', Loss = 0, LossPoint = 0, Snt = 3,
                      Last = 3602879701896397 / 36028797018963968,
                      Avg = 7205759403792795 / 72057594037927936,
                      Best = 3602879701896397 / 36028797018963968,
                      Wrst = 3602879701896397 / 36028797018963968\<rparr>]\<rparr>, None)"
proof -
  have e: "ParseIP env_steady ''1.2.3.4'' = Some ''1.2.3.4''"
    "Trace_env env_steady ''1.2.3.4'' = ([\<lparr>Hops = 1, IP = ''1.2.3.4'', RTT = 100000\<rparr>], None)"
    "now env_steady = 0"
    by (simp_all add: env_steady_def)
  have h: "hop_retry env_steady (op_sample 30 3 5 Second) ''1.2.3.4'' t 1
     \<lparr>MTRHup.Count = 1, Host = ''1.2.3.4'', Loss = 0, LossPoint = 0, Snt = 1,
          Last = 3602879701896397 / 36028797018963968,
          Avg = 3602879701896397 / 36028797018963968,
          Best = 3602879701896397 / 36028797018963968,
          Wrst = 3602879701896397 / 36028797018963968\<rparr>
     = \<lparr>MTRHup.Count = 1, Host = ''1.2.3.4'', Loss = 0, LossPoint = 0, Snt = 3,
          Last = 3602879701896397 / 36028797018963968,
          Avg = 7205759403792795 / 72057594037927936,
          Best = 3602879701896397 / 36028797018963968,
          Wrst = 3602879701896397 / 36028797018963968\<rparr>" for t
    by (simp add: hop_retry_def step1_steady step2_steady final_loss_def)
  show ?thesis
    by (simp add: run_def RunMTR_def run_with_def e on_reply_def discover_steady h Let_def)
qed

text \<open>
  C7. \<open>Best \<le> Avg \<le> Wrst\<close> and \<open>Best \<le> Last \<le> Wrst\<close> are to hold of every hop with a
  successful probe. The code breaks \<open>Avg \<le> Wrst\<close> by the rounding of its running
  mean: here hop 1 is answered three times, after 100 microseconds each time, and
  the report has \<open>Avg\<close> one unit in the last place above \<open>Best = Last = Wrst\<close>, that
  is 0.10000000000000002 above 0.1.
\<close>

theorem steady_hop_Avg_exceeds_Wrst:
  "run Sequential env_steady (op_sample 30 3 5 Second) ''1.2.3.4'' =
     Some (\<lparr>Time = 0, Src = ''0.0.0.0'', Dst = ''1.2.3.4'', Count = 3,
             Hups = [\<lparr>MTRHup.Count = 1, Host = ''1.2.3.4'', Loss = 0, LossPoint = 0, Snt = 3,
                      Last = 3602879701896397 / 36028797018963968,
                      Avg = 7205759403792795 / 72057594037927936,
                      Best = 3602879701896397 / 36028797018963968,
                      Wrst = 3602879701896397 / 36028797018963968\<rparr>]\<rparr>, None)
   \<and> (3602879701896397 / 36028797018963968 :: real) < 7205759403792795 / 72057594037927936"
  using eval_steady by simp

text \<open>The other half holds: in every report, \<open>Last\<close> lies between \<open>Best\<close> and \<open>Wrst\<close>.\<close>

lemma record_rtt_Last_between:
  "Best (record_rtt rtt hup) \<le> Last (record_rtt rtt hup)
   \<and> Last (record_rtt rtt hup) \<le> Wrst (record_rtt rtt hup)"
  by (simp add: record_rtt_def Let_def)

lemma no_retry_ping_Last_between:
  "Best hup \<le> Last hup \<and> Last hup \<le> Wrst hup \<Longrightarrow>
   Best (no_retry_ping op ping hup) \<le> Last (no_retry_ping op ping hup)
   \<and> Last (no_retry_ping op ping hup) \<le> Wrst (no_retry_ping op ping hup)"
  using record_rtt_Last_between
  by (simp add: no_retry_ping_def Let_def split: prod.splits option.splits)

lemma retry_ping_Last_between:
  assumes "Best (fst hs) \<le> Last (fst hs) \<and> Last (fst hs) \<le> Wrst (fst hs)"
  shows "Best (fst (retry_ping op dstIP ping hupsCopy hs))
           \<le> Last (fst (retry_ping op dstIP ping hupsCopy hs))
       \<and> Last (fst (retry_ping op dstIP ping hupsCopy hs))
           \<le> Wrst (fst (retry_ping op dstIP ping hupsCopy hs))"
  using assms record_rtt_Last_between
  by (cases hs) (simp add: retry_ping_def Let_def split: prod.splits option.splits)

lemma hop_body_Last_between:
  assumes "Best h \<le> Last h \<and> Last h \<le> Wrst h"
  shows "Best (hop_body v e op dstIP t k h) \<le> Last (hop_body v e op dstIP t k h)
       \<and> Last (hop_body v e op dstIP t k h) \<le> Wrst (hop_body v e op dstIP t k h)"
proof (cases v)
  case NoRetry
  have "(\<lambda>h. Best h \<le> Last h \<and> Last h \<le> Wrst h)
      (fold (\<lambda>j. no_retry_ping op (ping_env e k j)) [1..PingCount op - 1] h)"
    by (rule fold_invariant) (simp_all add: no_retry_ping_Last_between assms)
  with NoRetry show ?thesis by (simp add: hop_body_def hop_no_retry_def)
next
  case Sequential
  have "(\<lambda>hs. Best (fst hs) \<le> Last (fst hs) \<and> Last (fst hs) \<le> Wrst (fst hs))
      (fold (\<lambda>j. retry_ping op dstIP (ping_env e k j) (\<lambda>h. map snd (AList.update k h t)))
         [1..PingCount op - 1] (h, locals_init op))"
    by (rule fold_invariant) (simp_all add: retry_ping_Last_between assms)
  with Sequential show ?thesis by (simp add: hop_body_def hop_retry_def)
next
  case Concurrent
  have "(\<lambda>hs. Best (fst hs) \<le> Last (fst hs) \<and> Last (fst hs) \<le> Wrst (fst hs))
      (fold (\<lambda>j. retry_ping op dstIP (ping_env e k j) (\<lambda>h. h # scan_env e k j))
         [1..PingCount op - 1] (h, locals_init op))"
    by (rule fold_invariant) (simp_all add: retry_ping_Last_between assms)
  with Concurrent show ?thesis by (simp add: hop_body_def hop_worker_def)
qed

lemma report_Last_between:
  assumes "run v e op dst = Some (rep, err)" and "h \<in> set (Hups rep)"
  shows "Best h \<le> Last h \<and> Last h \<le> Wrst h"
proof (cases err)
  case (Some x)
  with assms run_error_no_hops[of v e op dst rep x] show ?thesis by simp
next
  case None
  from run_hop_origin[OF assms(1)[unfolded None] assms(2)] obtain dstIP replies k t where
    h: "h = hop_body v e op dstIP t k (hop_at (fold on_reply replies Map.empty) k)"
    by blast
  have "Best (hop_at (fold on_reply replies Map.empty) k)
          \<le> Last (hop_at (fold on_reply replies Map.empty) k)
      \<and> Last (hop_at (fold on_reply replies Map.empty) k)
          \<le> Wrst (hop_at (fold on_reply replies Map.empty) k)"
    by (simp add: hop_at_def known_hop_def unknown_hop_def split: option.splits)
  then show ?thesis unfolding h by (rule hop_body_Last_between)
qed

subsection \<open>The two discovery loops\<close>

lemma upto_1_3 [simp]: "[1..3] = [1, 2, 3]"
  by (simp add: upto.simps)




end
